theory Spec2Isabelle
  imports Main "HOL-Library.Word" "HOL-Library.AList"
begin

section \<open>Data model of \<open>bellows/zigbee/application.py\<close>\<close>

text \<open>
  The controller application is a Python object whose attributes are mutated by its
  methods. The embedding passes that object around as a record. Python integers are
  \<open>int\<close>; the two addresses of a device are fixed-width values that the code only ever
  compares, so they are words.
\<close>

type_synonym eui64 = "64 word"
type_synonym node_id = "16 word"

text \<open>
  The exceptions that occur in the module. \<open>Exception\<close> carries the message of the source
  (a format string is kept as written, with the values it is formatted with beside it).
  \<open>CancelledError\<close> is what the event loop throws into a coroutine whose task is
  cancelled.
\<close>

datatype py_error =
    AssertionError
  | KeyError
  | InvalidStateError
  | CancelledError
  | Exception string "int list"

text \<open>The frame metadata threaded through the module (\<open>t.EmberApsFrame\<close>).\<close>

record aps_frame =
  profileId :: int
  clusterId :: int
  sourceEndpoint :: int
  destinationEndpoint :: int
  options :: int
  groupId :: int
  sequence :: int

text \<open>
  Modelled from the spec: the class \<open>bellows.zigbee.device.Device\<close> is not part of the
  module. A device has a stable identity, a current short address (the attribute
  \<open>_nwk\<close> the module reads) and the last link-quality figures stored by
  \<open>radio_details\<close>.
\<close>

record device =
  dev_ieee :: eui64
  dev_nwk :: node_id
  dev_lqi :: "int option"
  dev_rssi :: "int option"

definition Device :: "eui64 \<Rightarrow> node_id \<Rightarrow> device" where
  "Device ieee nwk = \<lparr>dev_ieee = ieee, dev_nwk = nwk, dev_lqi = None, dev_rssi = None\<rparr>"

definition radio_details :: "device \<Rightarrow> int \<Rightarrow> int \<Rightarrow> device" where
  "radio_details dev lqi rssi = dev\<lparr>dev_lqi := Some lqi, dev_rssi := Some rssi\<rparr>"

text \<open>
  An \<open>asyncio.Future\<close> is a shared object: the pending table and the suspended
  \<open>request\<close> coroutine both refer to it. Futures therefore live in a store indexed by
  an allocation number, and the pending table holds such numbers.
\<close>

datatype 'a future = FPending | FResult 'a | FException py_error | FCancelled

datatype lifecycle_event = device_joined device | device_left device

datatype log_level = DEBUG | INFO | WARNING

datatype config_id =
    CONFIG_STACK_PROFILE
  | CONFIG_SECURITY_LEVEL
  | CONFIG_SUPPORTED_NETWORKS
  | CONFIG_APPLICATION_ZDO_FLAGS
  | CONFIG_TRUST_CENTER_ADDRESS_CACHE_SIZE
  | CONFIG_PACKET_BUFFER_COUNT

datatype zdo_flag =
    APP_RECEIVES_SUPPORTED_ZDO_REQUESTS
  | APP_HANDLES_UNSUPPORTED_ZDO_REQUESTS

datatype config_value = Num int | ZdoFlags "zdo_flag list"

datatype policy_id = TC_KEY_REQUEST_POLICY | APP_KEY_REQUEST_POLICY | TRUST_CENTER_POLICY

datatype decision_id =
    DENY_TC_KEY_REQUESTS
  | ALLOW_APP_KEY_REQUESTS
  | ALLOW_PRECONFIGURED_KEY_JOINS

datatype node_type =
    UNKNOWN_DEVICE
  | COORDINATOR
  | ROUTER
  | END_DEVICE
  | SLEEPY_END_DEVICE
  | MOBILE_END_DEVICE

datatype message_type = OUTGOING_DIRECT

text \<open>Every call the module makes on the NCP driver object \<open>self._ezsp\<close>.\<close>

datatype ezsp_call =
    Reset
  | Version int
  | SetConfigurationValue config_id config_value
  | NetworkInit
  | GetNetworkParameters
  | SetPolicy policy_id decision_id
  | GetNodeId
  | GetEui64
  | AddCallback
  | SendUnicast message_type node_id aps_frame int "8 word list"

text \<open>
  The application object. \<open>devices\<close> is the dictionary from stable identity to device,
  kept as an association list with one pair per key; \<open>pending\<close> is the dictionary from
  transaction id to future. \<open>app_nwk\<close> and \<open>app_ieee\<close> are the attributes \<open>_nwk\<close> and
  \<open>_ieee\<close>, which do not exist until \<open>startup\<close> has set them. The last four fields
  record what the object does to its surroundings: the calls made on the NCP driver,
  the events handed to \<open>listener_event\<close>, the devices whose \<open>initialize()\<close> was given
  to the event loop, and the log lines.
\<close>

record 'a app =
  send_sequence :: int
  devices :: "(eui64 \<times> device) list"
  pending :: "int \<rightharpoonup> nat"
  futures :: "nat \<Rightarrow> 'a future"
  next_future :: nat
  app_nwk :: "node_id option"
  app_ieee :: "eui64 option"
  ezsp_calls :: "ezsp_call list"
  emitted :: "lifecycle_event list"
  scheduled :: "device list"
  logged :: "(log_level \<times> string) list"

text \<open>\<open>__init__\<close> without a database file.\<close>

definition new_app :: "'a app" where
  "new_app = \<lparr>send_sequence = 0, devices = [], pending = Map.empty,
     futures = (\<lambda>_. FPending), next_future = 0, app_nwk = None, app_ieee = None,
     ezsp_calls = [], emitted = [], scheduled = [], logged = []\<rparr>"

section \<open>The sequence allocator\<close>

definition get_sequence :: "'a app \<Rightarrow> int \<times> 'a app" where
  "get_sequence s =
     (let s' = s\<lparr>send_sequence := (send_sequence s + 1) mod 256\<rparr>
      in (send_sequence s', s'))"

text \<open>\<open>n\<close> calls of the allocator in a row, with the ids they return in order.\<close>

fun get_sequences :: "nat \<Rightarrow> 'a app \<Rightarrow> int list \<times> 'a app" where
  "get_sequences 0 s = ([], s)"
| "get_sequences (Suc n) s =
     (case get_sequence s of (i, s') \<Rightarrow>
        (case get_sequences n s' of (ids, s'') \<Rightarrow> (i # ids, s'')))"

section \<open>Methods as state transformers\<close>

text \<open>
  A method runs on the application object and either returns a value or raises; in both
  cases the object keeps whatever the method did to it before. So a method is a
  function from the object to a result and the object afterwards.
\<close>

type_synonym ('a, 'r) action = "'a app \<Rightarrow> (py_error + 'r) \<times> 'a app"

definition return_ok :: "'r \<Rightarrow> ('a, 'r) action" where
  "return_ok r = (\<lambda>s. (Inr r, s))"

definition raise :: "py_error \<Rightarrow> ('a, 'r) action" where
  "raise e = (\<lambda>s. (Inl e, s))"

definition and_then :: "('a, 'r) action \<Rightarrow> ('r \<Rightarrow> ('a, 'q) action) \<Rightarrow> ('a, 'q) action" where
  "and_then m f = (\<lambda>s. case m s of (Inl e, s') \<Rightarrow> (Inl e, s') | (Inr r, s') \<Rightarrow> f r s')"

definition py_assert :: "bool \<Rightarrow> ('a, unit) action" where
  "py_assert b = (if b then return_ok () else raise AssertionError)"

definition log_line :: "log_level \<Rightarrow> string \<Rightarrow> 'a app \<Rightarrow> 'a app" where
  "log_line lvl msg s = s\<lparr>logged := logged s @ [(lvl, msg)]\<rparr>"

section \<open>The NCP driver\<close>

text \<open>
  The driver object \<open>self._ezsp\<close> is outside the module. What it answers to a command
  may depend on everything it has been asked so far, so each command the startup
  sequence awaits is a function from the calls made up to now (the current one last) to
  the values that come back. Where the source reads \<open>v[0]\<close> of an answer, the field
  gives the status first.
\<close>

record ezsp =
  reset_result :: "ezsp_call list \<Rightarrow> int list"
  version_result :: "ezsp_call list \<Rightarrow> int list"
  setConfigurationValue_result :: "ezsp_call list \<Rightarrow> int"
  networkInit_result :: "ezsp_call list \<Rightarrow> int"
  getNetworkParameters_result :: "ezsp_call list \<Rightarrow> int \<times> node_type"
  setPolicy_result :: "ezsp_call list \<Rightarrow> int"
  getNodeId_result :: "ezsp_call list \<Rightarrow> node_id"
  getEui64_result :: "ezsp_call list \<Rightarrow> eui64"

text \<open>Making a call on the driver: the call is recorded, and the history so far returned.\<close>

definition issue :: "ezsp_call \<Rightarrow> ('a, ezsp_call list) action" where
  "issue c = (\<lambda>s. (Inr (ezsp_calls s @ [c]), s\<lparr>ezsp_calls := ezsp_calls s @ [c]\<rparr>))"

section \<open>The startup sequence\<close>

definition cfg :: "ezsp \<Rightarrow> config_id \<Rightarrow> config_value \<Rightarrow> ('a, unit) action" where
  "cfg e config_id val =
     and_then (issue (SetConfigurationValue config_id val)) (\<lambda>h.
     py_assert (setConfigurationValue_result e h = 0))"

definition policy :: "ezsp \<Rightarrow> ('a, unit) action" where
  "policy e =
     and_then (issue (SetPolicy TC_KEY_REQUEST_POLICY DENY_TC_KEY_REQUESTS)) (\<lambda>h.
     and_then (py_assert (setPolicy_result e h = 0)) (\<lambda>_.
     and_then (issue (SetPolicy APP_KEY_REQUEST_POLICY ALLOW_APP_KEY_REQUESTS)) (\<lambda>h.
     and_then (py_assert (setPolicy_result e h = 0)) (\<lambda>_.
     and_then (issue (SetPolicy TRUST_CENTER_POLICY ALLOW_PRECONFIGURED_KEY_JOINS)) (\<lambda>h.
     py_assert (setPolicy_result e h = 0))))))"

definition set_nwk :: "node_id \<Rightarrow> ('a, unit) action" where
  "set_nwk n = (\<lambda>s. (Inr (), s\<lparr>app_nwk := Some n\<rparr>))"

definition set_ieee :: "eui64 \<Rightarrow> ('a, unit) action" where
  "set_ieee i = (\<lambda>s. (Inr (), s\<lparr>app_ieee := Some i\<rparr>))"

definition startup :: "ezsp \<Rightarrow> ('a, unit) action" where
  "startup e =
     and_then (issue Reset) (\<lambda>_.
     and_then (issue (Version 4)) (\<lambda>_.
     and_then (cfg e CONFIG_STACK_PROFILE (Num 2)) (\<lambda>_.
     and_then (cfg e CONFIG_SECURITY_LEVEL (Num 5)) (\<lambda>_.
     and_then (cfg e CONFIG_SUPPORTED_NETWORKS (Num 1)) (\<lambda>_.
     and_then (cfg e CONFIG_SUPPORTED_NETWORKS (Num 1)) (\<lambda>_.
     and_then (cfg e CONFIG_APPLICATION_ZDO_FLAGS
        (ZdoFlags [APP_RECEIVES_SUPPORTED_ZDO_REQUESTS,
                   APP_HANDLES_UNSUPPORTED_ZDO_REQUESTS])) (\<lambda>_.
     and_then (cfg e CONFIG_TRUST_CENTER_ADDRESS_CACHE_SIZE (Num 2)) (\<lambda>_.
     and_then (cfg e CONFIG_PACKET_BUFFER_COUNT (Num 255)) (\<lambda>_.
     and_then (issue NetworkInit) (\<lambda>h.
     and_then (py_assert (networkInit_result e h = 0)) (\<lambda>_.
     and_then (issue GetNetworkParameters) (\<lambda>h.
     and_then (py_assert (fst (getNetworkParameters_result e h) = 0)) (\<lambda>_.
     and_then (if snd (getNetworkParameters_result e h) \<noteq> COORDINATOR
               then raise (Exception ''Network not configured as coordinator'' [])
               else return_ok ()) (\<lambda>_.
     and_then (policy e) (\<lambda>_.
     and_then (issue GetNodeId) (\<lambda>h.
     and_then (set_nwk (getNodeId_result e h)) (\<lambda>_.
     and_then (issue GetEui64) (\<lambda>h.
     and_then (set_ieee (getEui64_result e h)) (\<lambda>_.
     and_then (issue AddCallback) (\<lambda>_.
     return_ok ()))))))))))))))))))))"

section \<open>The device registry\<close>

definition add_device :: "eui64 \<Rightarrow> node_id \<Rightarrow> 'a app \<Rightarrow> device \<times> 'a app" where
  "add_device ieee nwk s =
     (case map_of (devices s) ieee of
        Some dev \<Rightarrow> (dev, s)
      | None \<Rightarrow>
          (let dev = Device ieee nwk
           in (dev, s\<lparr>devices := AList.update ieee dev (devices s)\<rparr>)))"

text \<open>The loop of \<open>get_device\<close> over the values of the dictionary.\<close>

fun scan_nwk :: "(eui64 \<times> device) list \<Rightarrow> node_id option \<Rightarrow> (eui64 \<times> device) option" where
  "scan_nwk [] nwk = None"
| "scan_nwk ((k, dev) # rest) nwk =
     (if Some (dev_nwk dev) = nwk then Some (k, dev) else scan_nwk rest nwk)"

definition get_device :: "'a app \<Rightarrow> eui64 option \<Rightarrow> node_id option \<Rightarrow> py_error + device" where
  "get_device s ieee nwk =
     (case ieee of
        Some i \<Rightarrow> (case map_of (devices s) i of None \<Rightarrow> Inl KeyError | Some dev \<Rightarrow> Inr dev)
      | None \<Rightarrow>
          (case scan_nwk (devices s) nwk of
             Some (k, dev) \<Rightarrow> Inr dev
           | None \<Rightarrow> Inl KeyError))"

section \<open>Futures and the pending table\<close>

definition set_result :: "nat \<Rightarrow> 'a \<Rightarrow> ('a, unit) action" where
  "set_result f v = (\<lambda>s.
     case futures s f of
       FPending \<Rightarrow> (Inr (), s\<lparr>futures := (futures s)(f := FResult v)\<rparr>)
     | _ \<Rightarrow> (Inl InvalidStateError, s))"

definition set_exception :: "nat \<Rightarrow> py_error \<Rightarrow> ('a, unit) action" where
  "set_exception f e = (\<lambda>s.
     case futures s f of
       FPending \<Rightarrow> (Inr (), s\<lparr>futures := (futures s)(f := FException e)\<rparr>)
     | _ \<Rightarrow> (Inl InvalidStateError, s))"

section \<open>The callback handlers\<close>

text \<open>
  Modelled from the spec: the two frame decoders and the device's own request handler
  are outside the module. A decoder takes the frame metadata and the payload and gives
  transaction id, command id, reply flag and decoded arguments, or fails; the request
  handler of a device is only known to return or fail.
\<close>

record 'a collab =
  zdo_deserialize :: "aps_frame \<Rightarrow> 8 word list \<Rightarrow> py_error + (int \<times> int \<times> bool \<times> 'a)"
  zcl_deserialize :: "aps_frame \<Rightarrow> 8 word list \<Rightarrow> py_error + (int \<times> int \<times> bool \<times> 'a)"
  device_handle_request :: "device \<Rightarrow> aps_frame \<Rightarrow> int \<Rightarrow> int \<Rightarrow> 'a \<Rightarrow> py_error option"

datatype device_update =
    STANDARD_SECURITY_SECURED_REJOIN
  | STANDARD_SECURITY_UNSECURED_JOIN
  | DEVICE_LEFT
  | STANDARD_SECURITY_UNSECURED_REJOIN
  | HIGH_SECURITY_SECURED_REJOIN
  | HIGH_SECURITY_UNSECURED_JOIN
  | HIGH_SECURITY_UNSECURED_REJOIN

text \<open>
  What the driver hands to \<open>ezsp_callback_handler\<close>: a frame name with the argument
  tuple of that frame. The three names the handler knows carry the arguments that the
  handlers they are unpacked into declare; any other name is ignored.
\<close>

datatype callback =
    incomingMessageHandler int aps_frame int int node_id int int "8 word list"
  | messageSentHandler int node_id aps_frame int int "8 word list"
  | trustCenterJoinHandler node_id eui64 device_update int node_id
  | other_frame string

definition handle_reply :: "node_id \<Rightarrow> aps_frame \<Rightarrow> int \<Rightarrow> int \<Rightarrow> 'a \<Rightarrow> ('a, unit) action" where
  "handle_reply sender aps_frame tsn command_id args = (\<lambda>s.
     case pending s tsn of
       None \<Rightarrow>
         (Inr (), log_line WARNING ''Unexpected response TSN=%s command=%s args=%s'' s)
     | Some fut \<Rightarrow> set_result fut args (s\<lparr>pending := (pending s)(tsn := None)\<rparr>))"

definition handle_request ::
  "'a collab \<Rightarrow> node_id \<Rightarrow> aps_frame \<Rightarrow> int \<Rightarrow> int \<Rightarrow> 'a \<Rightarrow> ('a, unit) action" where
  "handle_request c sender aps_frame tsn command_id args = (\<lambda>s.
     case get_device s None (Some sender) of
       Inl _ \<Rightarrow> (Inr (), log_line WARNING ''Request on unknown device 0x%04x'' s)
     | Inr dev \<Rightarrow>
         (case device_handle_request c dev aps_frame tsn command_id args of
            Some err \<Rightarrow> (Inl err, s)
          | None \<Rightarrow> (Inr (), s)))"

definition handle_frame ::
  "'a collab \<Rightarrow> int \<Rightarrow> aps_frame \<Rightarrow> int \<Rightarrow> int \<Rightarrow> node_id \<Rightarrow> int \<Rightarrow> int \<Rightarrow> 8 word list
     \<Rightarrow> ('a, unit) action" where
  "handle_frame c message_type aps_frame lqi rssi sender binding_index address_index message =
     (\<lambda>s.
       let s1 = (case scan_nwk (devices s) (Some sender) of
                   Some (k, dev) \<Rightarrow>
                     s\<lparr>devices := AList.update k (radio_details dev lqi rssi) (devices s)\<rparr>
                 | None \<Rightarrow> log_line DEBUG ''No such device %s'' s);
           deserialize = (if destinationEndpoint aps_frame = 0
                          then zdo_deserialize c else zcl_deserialize c)
       in case deserialize aps_frame message of
            Inl err \<Rightarrow> (Inl err, s1)
          | Inr (tsn, command_id, is_reply, args) \<Rightarrow>
              if is_reply
              then handle_reply sender aps_frame tsn command_id args s1
              else handle_request c sender aps_frame tsn command_id args s1)"

definition handle_join ::
  "node_id \<Rightarrow> eui64 \<Rightarrow> device_update \<Rightarrow> int \<Rightarrow> node_id \<Rightarrow> ('a, unit) action" where
  "handle_join nwk ieee device_update join_dec parent_nwk = (\<lambda>s.
     let s1 = log_line INFO ''Device 0x%04x (%s) joined the network'' s
     in if (case map_of (devices s1) ieee of Some d \<Rightarrow> dev_nwk d = nwk | None \<Rightarrow> False)
        then (Inr (), log_line DEBUG ''Skip initialization for existing device %s'' s1)
        else (case add_device ieee nwk s1 of (dev, s2) \<Rightarrow>
                (Inr (), s2\<lparr>emitted := emitted s2 @ [device_joined dev],
                             scheduled := scheduled s2 @ [dev]\<rparr>)))"

definition handle_leave :: "node_id \<Rightarrow> eui64 \<Rightarrow> ('a, unit) action" where
  "handle_leave nwk ieee = (\<lambda>s.
     let s1 = log_line INFO ''Device 0x%04x (%s) left the network'' s
     in case map_of (devices s1) ieee of
          None \<Rightarrow> (Inr (), s1)
        | Some dev \<Rightarrow>
            (Inr (), s1\<lparr>devices := AList.delete ieee (devices s1),
                         emitted := emitted s1 @ [device_left dev]\<rparr>))"

definition handle_frame_failure ::
  "int \<Rightarrow> node_id \<Rightarrow> aps_frame \<Rightarrow> int \<Rightarrow> int \<Rightarrow> 8 word list \<Rightarrow> ('a, unit) action" where
  "handle_frame_failure message_type destination aps_frame message_tag status message = (\<lambda>s.
     case pending s message_tag of
       None \<Rightarrow> (Inr (), log_line WARNING ''Unexpected message send failure'' s)
     | Some fut \<Rightarrow>
         set_exception fut (Exception ''Message send failure'' [])
           (s\<lparr>pending := (pending s)(message_tag := None)\<rparr>))"

fun ezsp_callback_handler :: "'a collab \<Rightarrow> callback \<Rightarrow> ('a, unit) action" where
  "ezsp_callback_handler c
       (incomingMessageHandler message_type aps_frame lqi rssi sender bi ai message) =
     handle_frame c message_type aps_frame lqi rssi sender bi ai message"
| "ezsp_callback_handler c
       (messageSentHandler message_type destination aps_frame message_tag status message) =
     (if status \<noteq> 0
      then handle_frame_failure message_type destination aps_frame message_tag status message
      else return_ok ())"
| "ezsp_callback_handler c (trustCenterJoinHandler nwk ieee device_update join_dec parent_nwk) =
     (if device_update = DEVICE_LEFT
      then handle_leave nwk ieee
      else handle_join nwk ieee device_update join_dec parent_nwk)"
| "ezsp_callback_handler c (other_frame frame_name) = return_ok ()"

section \<open>Requests\<close>

text \<open>
  \<open>request\<close> is a coroutine: it runs to the point where it awaits the answer of
  \<open>sendUnicast\<close>, later from that answer to the point where it awaits its future, and
  later from there to its end. Between these stretches the event loop runs whatever
  else is due. Each stretch is a function of its own; \<open>request\<close> below puts them
  together with what happens in between. At each of the two \<open>yield from\<close> an exception
  can come out instead of a value: what \<open>sendUnicast\<close> raises, or the
  \<open>CancelledError\<close> of a cancelled task. The source has no \<open>try\<close> around them, so the
  exception ends the call where it stands.
\<close>

definition request_start :: "node_id \<Rightarrow> aps_frame \<Rightarrow> 8 word list \<Rightarrow> ('a, nat) action" where
  "request_start nwk aps_frame data = (\<lambda>s.
     let seq = sequence aps_frame
     in if seq \<in> dom (pending s) then (Inl AssertionError, s)
        else
          (let fut = next_future s;
               s1 = s\<lparr>futures := (futures s)(fut := FPending), next_future := Suc fut\<rparr>;
               s2 = s1\<lparr>pending := (pending s1)(seq \<mapsto> fut)\<rparr>
           in case issue (SendUnicast OUTGOING_DIRECT nwk aps_frame seq data) s2 of
                (_, s3) \<Rightarrow> (Inr fut, s3)))"

text \<open>The stretch after \<open>sendUnicast\<close> has answered \<open>v\<close>; \<open>status\<close> is \<open>v[0]\<close>.\<close>

definition request_sent :: "int \<Rightarrow> int \<Rightarrow> ('a, unit) action" where
  "request_sent seq status = (\<lambda>s.
     if status \<noteq> 0
     then (case pending s seq of
             None \<Rightarrow> (Inl KeyError, s)
           | Some fut \<Rightarrow>
               (Inl (Exception ''Message send failure %s'' [status]),
                s\<lparr>pending := (pending s)(seq := None)\<rparr>))
     else (Inr (), s))"

datatype 'a outcome = Suspended | Returned 'a | Raised py_error

text \<open>\<open>yield from fut\<close>: the coroutine goes on only when the future is done.\<close>

definition request_await :: "nat \<Rightarrow> 'a app \<Rightarrow> 'a outcome" where
  "request_await fut s =
     (case futures s fut of
        FPending \<Rightarrow> Suspended
      | FResult v \<Rightarrow> Returned v
      | FException e \<Rightarrow> Raised e
      | FCancelled \<Rightarrow> Raised CancelledError)"

text \<open>
  Cancelling the task while it waits on its future cancels that future if it is not done
  yet; either way the coroutine is resumed with \<open>CancelledError\<close>.
\<close>

definition cancel_future :: "nat \<Rightarrow> 'a app \<Rightarrow> 'a app" where
  "cancel_future fut s =
     (case futures s fut of
        FPending \<Rightarrow> s\<lparr>futures := (futures s)(fut := FCancelled)\<rparr>
      | _ \<Rightarrow> s)"

text \<open>
  What the event loop may run while one \<open>request\<close> is suspended: a callback from the
  driver, a stretch of some other \<open>request\<close>, or an allocation. An exception raised
  there goes to whoever made that call; the application object stays as it was left.
\<close>

datatype activity =
    Callback callback
  | Request node_id aps_frame "8 word list"
  | SendAnswered int int
  | GetSequence

fun perform :: "'a collab \<Rightarrow> activity \<Rightarrow> 'a app \<Rightarrow> 'a app" where
  "perform c (Callback cb) s = snd (ezsp_callback_handler c cb s)"
| "perform c (Request nwk aps_frame data) s = snd (request_start nwk aps_frame data s)"
| "perform c (SendAnswered seq status) s = snd (request_sent seq status s)"
| "perform c GetSequence s = snd (get_sequence s)"

text \<open>
  One call of \<open>request\<close>. \<open>before\<close> is what runs while the answer of \<open>sendUnicast\<close>
  is awaited and \<open>answer\<close> what comes out of that \<open>yield from\<close>: an exception, or the
  answer \<open>v\<close>, given by its status \<open>v[0]\<close>. \<open>after\<close> is what runs while the future is
  awaited, and \<open>cancelled\<close> says whether the task is cancelled there.
\<close>

definition request ::
  "'a collab \<Rightarrow> node_id \<Rightarrow> aps_frame \<Rightarrow> 8 word list
     \<Rightarrow> activity list \<Rightarrow> py_error + int \<Rightarrow> activity list \<Rightarrow> bool
     \<Rightarrow> 'a app \<Rightarrow> 'a outcome \<times> 'a app" where
  "request c nwk aps_frame data before answer after cancelled s =
     (case request_start nwk aps_frame data s of
        (Inl e, s1) \<Rightarrow> (Raised e, s1)
      | (Inr fut, s1) \<Rightarrow>
          (let s2 = fold (perform c) before s1
           in case answer of
                Inl e \<Rightarrow> (Raised e, s2)
              | Inr status \<Rightarrow>
                  (case request_sent (sequence aps_frame) status s2 of
                     (Inl e, s3) \<Rightarrow> (Raised e, s3)
                   | (Inr _, s3) \<Rightarrow>
                       (let s4 = fold (perform c) after s3
                        in if cancelled
                           then (Raised CancelledError, cancel_future fut s4)
                           else (request_await fut s4, s4)))))"

section \<open>Invariants of the two tables\<close>

text \<open>
  Every future the pending table refers to has been allocated, is not done yet, and is
  referred to under one transaction id only.
\<close>

definition pending_ok :: "'a app \<Rightarrow> bool" where
  "pending_ok s \<longleftrightarrow>
     (\<forall>t f. pending s t = Some f \<longrightarrow>
        f < next_future s \<and> futures s f = FPending
        \<and> (\<forall>t'. pending s t' = Some f \<longrightarrow> t' = t))"

text \<open>
  The registry has one pair per stable identity, and a device is stored under its own
  identity.
\<close>

definition registry_ok :: "'a app \<Rightarrow> bool" where
  "registry_ok s \<longleftrightarrow>
     distinct (map fst (devices s)) \<and> (\<forall>(k, d) \<in> set (devices s). dev_ieee d = k)"

text \<open>
  What a method can do to the pending table and the futures: nothing, remove the entry
  of one transaction id (completing its future or not), or add an entry with a new
  future.
\<close>

definition same_table :: "'a app \<Rightarrow> 'a app \<Rightarrow> bool" where
  "same_table s s' \<longleftrightarrow>
     pending s' = pending s \<and> futures s' = futures s \<and> next_future s' = next_future s"

definition popped :: "int \<Rightarrow> 'a app \<Rightarrow> 'a app \<Rightarrow> bool" where
  "popped t s s' \<longleftrightarrow>
     pending s' = (pending s)(t := None) \<and> next_future s' = next_future s
     \<and> (futures s' = futures s
         \<or> (\<exists>f r. pending s t = Some f \<and> futures s' = (futures s)(f := r)))"

definition registered :: "int \<Rightarrow> 'a app \<Rightarrow> 'a app \<Rightarrow> bool" where
  "registered t s s' \<longleftrightarrow>
     pending s t = None \<and> pending s' = (pending s)(t \<mapsto> next_future s)
     \<and> futures s' = (futures s)(next_future s := FPending)
     \<and> next_future s' = Suc (next_future s)"

text \<open>
  Every future the pending table refers to has been allocated. This is kept by every
  operation, cancellation included, since future numbers are handed out only once.
\<close>

definition allocated :: "'a app \<Rightarrow> bool" where
  "allocated s \<longleftrightarrow> (\<forall>t f. pending s t = Some f \<longrightarrow> f < next_future s)"

text \<open>
  The entry a call of \<open>request\<close> has made: its future \<open>fut\<close> is referred to under its
  transaction id \<open>seq\<close> only, and is not done as long as the table refers to it; and,
  stronger, the id \<open>seq\<close> refers to \<open>fut\<close> or to nothing.
\<close>

definition own_entry :: "int \<Rightarrow> nat \<Rightarrow> 'a app \<Rightarrow> bool" where
  "own_entry seq fut s \<longleftrightarrow>
     allocated s \<and> fut < next_future s
     \<and> (\<forall>t. pending s t = Some fut \<longrightarrow> t = seq \<and> futures s fut = FPending)"

definition sole_entry :: "int \<Rightarrow> nat \<Rightarrow> 'a app \<Rightarrow> bool" where
  "sole_entry seq fut s \<longleftrightarrow>
     own_entry seq fut s \<and> (pending s seq = Some fut \<or> pending s seq = None)"

text \<open>An activity that registers transaction id \<open>seq\<close> for another request.\<close>

fun reuses :: "int \<Rightarrow> activity \<Rightarrow> bool" where
  "reuses seq (Request nwk aps_frame data) = (sequence aps_frame = seq)"
| "reuses seq _ = False"

section \<open>The calls of the startup sequence\<close>

text \<open>
  The calls \<open>startup\<close> makes on the driver when nothing stops it, in order; the calls
  made once the first \<open>k\<close> of them are out; the status the source checks in the answer
  to the last call of a history (the answers to \<open>reset\<close>, \<open>version\<close>, \<open>getNodeId\<close>,
  \<open>getEui64\<close> and \<open>add_callback\<close> are not checked); and the first \<open>n\<close> calls all
  having passed their check.
\<close>

definition startup_calls :: "ezsp_call list" where
  "startup_calls =
     [Reset, Version 4,
      SetConfigurationValue CONFIG_STACK_PROFILE (Num 2),
      SetConfigurationValue CONFIG_SECURITY_LEVEL (Num 5),
      SetConfigurationValue CONFIG_SUPPORTED_NETWORKS (Num 1),
      SetConfigurationValue CONFIG_SUPPORTED_NETWORKS (Num 1),
      SetConfigurationValue CONFIG_APPLICATION_ZDO_FLAGS
        (ZdoFlags [APP_RECEIVES_SUPPORTED_ZDO_REQUESTS, APP_HANDLES_UNSUPPORTED_ZDO_REQUESTS]),
      SetConfigurationValue CONFIG_TRUST_CENTER_ADDRESS_CACHE_SIZE (Num 2),
      SetConfigurationValue CONFIG_PACKET_BUFFER_COUNT (Num 255),
      NetworkInit, GetNetworkParameters,
      SetPolicy TC_KEY_REQUEST_POLICY DENY_TC_KEY_REQUESTS,
      SetPolicy APP_KEY_REQUEST_POLICY ALLOW_APP_KEY_REQUESTS,
      SetPolicy TRUST_CENTER_POLICY ALLOW_PRECONFIGURED_KEY_JOINS,
      GetNodeId, GetEui64, AddCallback]"

definition history :: "'a app \<Rightarrow> nat \<Rightarrow> ezsp_call list" where
  "history s k = ezsp_calls s @ take k startup_calls"

definition status_of :: "ezsp \<Rightarrow> ezsp_call list \<Rightarrow> int option" where
  "status_of e h =
     (case last h of
        SetConfigurationValue config_id val \<Rightarrow> Some (setConfigurationValue_result e h)
      | NetworkInit \<Rightarrow> Some (networkInit_result e h)
      | GetNetworkParameters \<Rightarrow> Some (fst (getNetworkParameters_result e h))
      | SetPolicy policy_id decision_id \<Rightarrow> Some (setPolicy_result e h)
      | _ \<Rightarrow> None)"

definition answers_ok :: "ezsp \<Rightarrow> 'a app \<Rightarrow> nat \<Rightarrow> bool" where
  "answers_ok e s n \<longleftrightarrow>
     (\<forall>k < n. status_of e (history s (Suc k)) = None \<or> status_of e (history s (Suc k)) = Some 0)"

section \<open>Sample inputs\<close>

text \<open>
  A decoder for the examples: the first byte of the payload is the transaction id, the
  second the command id, whose top bit marks a reply.
\<close>

definition byte_codec :: "aps_frame \<Rightarrow> 8 word list \<Rightarrow> py_error + (int \<times> int \<times> bool \<times> int list)" where
  "byte_codec aps_frame message =
     (case message of
        tsn # cmd # rest \<Rightarrow> Inr (uint tsn, uint cmd, 128 \<le> uint cmd, map uint rest)
      | _ \<Rightarrow> Inl (Exception ''Data is too short'' []))"

definition sample_collab :: "int list collab" where
  "sample_collab = \<lparr>zdo_deserialize = byte_codec, zcl_deserialize = byte_codec,
     device_handle_request = (\<lambda>dev aps_frame tsn command_id args. None)\<rparr>"

definition frame5 :: aps_frame where
  "frame5 = \<lparr>profileId = 260, clusterId = 6, sourceEndpoint = 1, destinationEndpoint = 1,
     options = 0, groupId = 0, sequence = 5\<rparr>"

definition reply5 :: callback where
  "reply5 = incomingMessageHandler 0 frame5 200 (- 40) 4660 0 0 [5, 129, 7]"

text \<open>An application object with one request pending under transaction id 5.\<close>

definition busy5 :: "int list app" where
  "busy5 = snd (request_start 4660 frame5 [] new_app)"

text \<open>An application object that has seen one device join.\<close>

definition one_device :: "int list app" where
  "one_device = snd (handle_join 4660 11259375 STANDARD_SECURITY_UNSECURED_JOIN 0 0 new_app)"

text \<open>
  Drivers for the examples: one that accepts everything and reports a coordinator, one
  that reports a router, one whose \<open>reset\<close> and \<open>version\<close> answer with a leading 1, and
  one that refuses the sixth call it gets.
\<close>

definition good_ncp :: ezsp where
  "good_ncp = \<lparr>reset_result = (\<lambda>h. []), version_result = (\<lambda>h. [4, 2, 23152]),
     setConfigurationValue_result = (\<lambda>h. 0), networkInit_result = (\<lambda>h. 0),
     getNetworkParameters_result = (\<lambda>h. (0, COORDINATOR)), setPolicy_result = (\<lambda>h. 0),
     getNodeId_result = (\<lambda>h. 0), getEui64_result = (\<lambda>h. 3781220488645181)\<rparr>"

definition router_ncp :: ezsp where
  "router_ncp = good_ncp\<lparr>getNetworkParameters_result := (\<lambda>h. (0, ROUTER))\<rparr>"

definition reset_failed_ncp :: ezsp where
  "reset_failed_ncp = good_ncp\<lparr>reset_result := (\<lambda>h. [1]), version_result := (\<lambda>h. [1])\<rparr>"

definition fourth_write_refused_ncp :: ezsp where
  "fourth_write_refused_ncp =
     good_ncp\<lparr>setConfigurationValue_result := (\<lambda>h. if length h = 6 then 1 else 0)\<rparr>"

section \<open>Properties of the sequence allocator\<close>

lemma get_sequence_value: "fst (get_sequence s) = (send_sequence s + 1) mod 256"
  by (simp add: get_sequence_def)

lemma get_sequence_state:
  "send_sequence (snd (get_sequence s)) = (send_sequence s + 1) mod 256"
  by (simp add: get_sequence_def)

lemma mod_256_shift: "((x + 1) mod 256 + 1 + int k) mod 256
      = (x + 1 + int (Suc k)) mod (256::int)"
proof -
  have "((x + 1) mod 256 + (1 + int k)) mod 256 = ((x + 1) + (1 + int k)) mod 256"
    by (rule mod_add_left_eq)
  then show ?thesis by (simp add: add.assoc)
qed

lemma mod_256_inj:
  assumes "j < (256::nat)" "k < 256" "(x + int j) mod 256 = (x + int k) mod 256"
  shows "j = k"
proof -
  have "(256::int) dvd (x + int j) - (x + int k)"
    using assms(3) by (rule mod_eq_dvd_iff [THEN iffD1])
  then have "(256::int) dvd (int j - int k)"
    by simp
  then obtain q where q: "int j - int k = 256 * q" ..
  have "\<bar>int j - int k\<bar> < 256"
    using assms(1,2) by linarith
  with q have "q = 0" by linarith
  with q show ?thesis by simp
qed

lemma get_sequences_Suc:
  "fst (get_sequences (Suc n) s) = fst (get_sequence s) # fst (get_sequences n (snd (get_sequence s)))"
  by (simp add: case_prod_beta)

lemma upt_shift: "[0..<Suc n] = 0 # map Suc [0..<n]"
  by (simp only: upt_conv_Cons [OF zero_less_Suc] map_Suc_upt)

lemma get_sequences_ids:
  "fst (get_sequences n s) = map (\<lambda>k. (send_sequence s + 1 + int k) mod 256) [0..<n]"
proof (induction n arbitrary: s)
  case 0
  show ?case by simp
next
  case (Suc n)
  have "fst (get_sequences (Suc n) s)
      = fst (get_sequence s) # fst (get_sequences n (snd (get_sequence s)))"
    by (rule get_sequences_Suc)
  also have "\<dots> = (send_sequence s + 1) mod 256
      # map (\<lambda>k. ((send_sequence s + 1) mod 256 + 1 + int k) mod 256) [0..<n]"
    by (simp only: Suc.IH get_sequence_value get_sequence_state)
  also have "\<dots> = (send_sequence s + 1 + int 0) mod 256
      # map (\<lambda>k. (send_sequence s + 1 + int (Suc k)) mod 256) [0..<n]"
    by (simp only: mod_256_shift) simp
  also have "\<dots> = map (\<lambda>k. (send_sequence s + 1 + int k) mod 256) (0 # map Suc [0..<n])"
    by (simp only: list.map map_map comp_def)
  finally show ?case
    by (simp only: upt_shift)
qed

lemma length_get_sequences: "length (fst (get_sequences n s)) = n"
  by (simp only: get_sequences_ids length_map length_upt diff_zero)

lemma get_sequences_nth:
  assumes "k < n"
  shows "fst (get_sequences n s) ! k = (send_sequence s + 1 + int k) mod 256"
proof -
  have "k < length [0..<n]" using assms by (simp only: length_upt diff_zero)
  then have "map (\<lambda>k. (send_sequence s + 1 + int k) mod 256) [0..<n] ! k
      = (send_sequence s + 1 + int ([0..<n] ! k)) mod 256"
    by (rule nth_map)
  moreover have "[0..<n] ! k = k"
    using assms by (simp only: nth_upt add_0)
  ultimately show ?thesis
    by (simp only: get_sequences_ids)
qed

lemma get_sequences_256_distinct: "distinct (fst (get_sequences 256 s))"
proof -
  have "inj_on (\<lambda>k. (send_sequence s + 1 + int k) mod 256) {0..<256}"
  proof (rule inj_onI)
    fix j k :: nat
    assume "j \<in> {0..<256}" "k \<in> {0..<256}"
      and eq: "(send_sequence s + 1 + int j) mod 256 = (send_sequence s + 1 + int k) mod 256"
    then have "j < 256" "k < 256"
      by (simp_all only: atLeastLessThan_iff)
    then show "j = k"
      using eq by (rule mod_256_inj)
  qed
  then have "distinct (map (\<lambda>k. (send_sequence s + 1 + int k) mod 256) [0..<256])"
    by (simp only: distinct_map distinct_upt set_upt simp_thms)
  then show ?thesis
    by (simp only: get_sequences_ids)
qed

text \<open>
  C7 (as stated, refuted). Starting from a fresh application object, allocate 257 ids
  in a row with nothing released in between: the 257th id is one of the 256 before it.
\<close>

theorem get_sequence_257th_collides:
  "fst (get_sequences 257 (new_app :: unit app)) ! 256
     \<in> set (take 256 (fst (get_sequences 257 (new_app :: unit app))))"
proof -
  let ?ids = "fst (get_sequences 257 (new_app :: unit app))"
  have s0: "send_sequence (new_app :: unit app) = 0"
    by (simp add: new_app_def)
  have "?ids ! 256 = (send_sequence (new_app :: unit app) + 1 + int 256) mod 256"
    by (rule get_sequences_nth) simp
  then have last: "?ids ! 256 = 1"
    by (simp add: s0)
  have "?ids ! 0 = (send_sequence (new_app :: unit app) + 1 + int 0) mod 256"
    by (rule get_sequences_nth) simp
  then have first: "?ids ! 0 = 1"
    by (simp add: s0)
  have len: "(0::nat) < length (take 256 ?ids)"
    by (simp add: length_get_sequences)
  have "take 256 ?ids ! 0 = ?ids ! 0"
    by (rule nth_take) simp
  moreover have "take 256 ?ids ! 0 \<in> set (take 256 ?ids)"
    using len by (rule nth_mem)
  ultimately have "?ids ! 0 \<in> set (take 256 ?ids)"
    by (simp only:)
  then show ?thesis
    by (simp only: last first)
qed

text \<open>
  C7 (amended). Each call of the allocator stores and returns the stored counter plus
  one modulo 256, so each id is its predecessor plus one modulo 256; any 256 allocations
  in a row return pairwise different ids; the allocator never looks at the pending
  table, so the 257th allocation in a row returns the id of the 1st again.
\<close>

theorem get_sequence_wraps:
  "fst (get_sequence s) = (send_sequence s + 1) mod 256
   \<and> fst (get_sequence (snd (get_sequence s))) = (fst (get_sequence s) + 1) mod 256
   \<and> pending (snd (get_sequence s)) = pending s
   \<and> distinct (fst (get_sequences 256 s))
   \<and> fst (get_sequences 257 s) ! 256 = fst (get_sequences 257 s) ! 0"
proof -
  have a: "fst (get_sequence s) = (send_sequence s + 1) mod 256"
    by (rule get_sequence_value)
  have b: "fst (get_sequence (snd (get_sequence s))) = (fst (get_sequence s) + 1) mod 256"
    by (simp only: get_sequence_value get_sequence_state)
  have c: "pending (snd (get_sequence s)) = pending s"
    by (simp add: get_sequence_def)
  have d: "distinct (fst (get_sequences 256 s))"
    by (rule get_sequences_256_distinct)
  have "fst (get_sequences 257 s) ! 256 = (send_sequence s + 1 + int 256) mod 256"
    by (rule get_sequences_nth) simp
  moreover have "fst (get_sequences 257 s) ! 0 = (send_sequence s + 1 + int 0) mod 256"
    by (rule get_sequences_nth) simp
  moreover have "(send_sequence s + 1 + int 256) mod 256 = (send_sequence s + 1 + int 0) mod 256"
  proof -
    have "(send_sequence s + 1 + 256) mod 256 = (send_sequence s + 1) mod 256"
      by (rule mod_add_self2)
    then show ?thesis by simp
  qed
  ultimately have e: "fst (get_sequences 257 s) ! 256 = fst (get_sequences 257 s) ! 0"
    by (simp only:)
  from a b c d e show ?thesis by blast
qed

section \<open>Properties of the pending table\<close>

lemma pending_okD:
  assumes "pending_ok s" "pending s t = Some f"
  shows "f < next_future s" "futures s f = FPending" "pending s t' = Some f \<Longrightarrow> t' = t"
  using assms unfolding pending_ok_def by blast+

lemma pending_ok_new_app: "pending_ok new_app"
  by (simp add: pending_ok_def new_app_def)

lemma request_start_fresh:
  assumes "sequence aps_frame \<notin> dom (pending s)"
  shows "request_start nwk aps_frame data s
     = (Inr (next_future s),
        s\<lparr>futures := (futures s)(next_future s := FPending),
          next_future := Suc (next_future s),
          pending := (pending s)(sequence aps_frame \<mapsto> next_future s),
          ezsp_calls := ezsp_calls s
            @ [SendUnicast OUTGOING_DIRECT nwk aps_frame (sequence aps_frame) data]\<rparr>)"
  using assms by (simp add: request_start_def issue_def Let_def)

lemma request_start_pending:
  assumes "sequence aps_frame \<in> dom (pending s)"
  shows "request_start nwk aps_frame data s = (Inl AssertionError, s)"
  using assms by (simp add: request_start_def)

lemma busy5_pending: "pending busy5 5 = Some 0"
  by (simp add: busy5_def request_start_def new_app_def frame5_def issue_def)

text \<open>
  C2. The pending table is a dictionary, so it holds at most one entry per transaction
  id. A request whose frame carries a transaction id that is in the table fails its
  assertion and leaves the application object exactly as it was: no entry is
  overwritten, no future is made, and \<open>sendUnicast\<close> is not called.
\<close>

theorem request_rejects_pending_id:
  assumes "sequence aps_frame \<in> dom (pending s)"
  shows "request_start nwk aps_frame data s = (Inl AssertionError, s)
     \<and> request c nwk aps_frame data before answer after cancelled s
           = (Raised AssertionError, s)"
  using assms by (simp add: request_start_def request_def)

text \<open>
  C2, at an input: a second request with transaction id 5 while the first is pending.
\<close>

theorem request_rejects_pending_id_witness:
  "sequence frame5 \<in> dom (pending busy5)
   \<and> request_start 22136 frame5 [1] busy5 = (Inl AssertionError, busy5)
   \<and> request sample_collab 22136 frame5 [1] [] (Inr 0) [] False busy5
        = (Raised AssertionError, busy5)"
proof -
  have h: "sequence frame5 \<in> dom (pending busy5)"
    using busy5_pending by (simp add: frame5_def dom_def)
  show ?thesis
    using h request_rejects_pending_id [OF h, of 22136 "[1]" sample_collab "[]" "Inr 0" "[]" False] by simp
qed





lemma busy5_future: "futures busy5 0 = FPending"
  by (simp add: busy5_def request_start_def new_app_def frame5_def issue_def)





text \<open>
  C9. A request registers its future under the \<open>sequence\<close> field of the frame it was
  given and passes that same number to \<open>sendUnicast\<close> as the message tag; no stretch of
  \<open>request\<close> touches the counter of the sequence allocator.
\<close>

theorem request_uses_frame_sequence:
  "(sequence aps_frame \<notin> dom (pending s) \<longrightarrow>
      (\<exists>fut s'. request_start nwk aps_frame data s = (Inr fut, s')
         \<and> pending s' = (pending s)(sequence aps_frame \<mapsto> fut)
         \<and> ezsp_calls s' = ezsp_calls s
              @ [SendUnicast OUTGOING_DIRECT nwk aps_frame (sequence aps_frame) data]
         \<and> send_sequence s' = send_sequence s))
   \<and> send_sequence (snd (request_start nwk aps_frame data s)) = send_sequence s
   \<and> send_sequence (snd (request_sent seq status s)) = send_sequence s
   \<and> send_sequence (snd (request c nwk aps_frame data [] answer [] cancelled s))
        = send_sequence s"
proof (intro conjI impI)
  assume f: "sequence aps_frame \<notin> dom (pending s)"
  show "\<exists>fut s'. request_start nwk aps_frame data s = (Inr fut, s')
         \<and> pending s' = (pending s)(sequence aps_frame \<mapsto> fut)
         \<and> ezsp_calls s' = ezsp_calls s
              @ [SendUnicast OUTGOING_DIRECT nwk aps_frame (sequence aps_frame) data]
         \<and> send_sequence s' = send_sequence s"
    by (simp add: request_start_fresh [OF f])
next
  show a: "send_sequence (snd (request_start nwk aps_frame data s)) = send_sequence s"
    by (simp add: request_start_def issue_def Let_def)
  show "send_sequence (snd (request_sent seq status s)) = send_sequence s"
    by (simp add: request_sent_def split: option.splits)
  show "send_sequence (snd (request c nwk aps_frame data [] answer [] cancelled s))
        = send_sequence s"
  proof (cases "sequence aps_frame \<in> dom (pending s)")
    case True
    then show ?thesis
      by (simp add: request_def request_start_def)
  next
    case False
    then show ?thesis
      by (simp add: request_def request_start_fresh request_sent_def cancel_future_def
          split: option.splits sum.splits future.splits)
  qed
qed

text \<open>
  C9, at an input: the first request of a fresh application object, transaction id 5.
\<close>

theorem request_uses_frame_sequence_witness:
  "sequence frame5 \<notin> dom (pending (new_app :: int list app))
   \<and> fst (request_start 4660 frame5 [1] (new_app :: int list app)) = Inr 0
   \<and> pending (snd (request_start 4660 frame5 [1] (new_app :: int list app))) 5 = Some 0
   \<and> ezsp_calls (snd (request_start 4660 frame5 [1] (new_app :: int list app)))
        = [SendUnicast OUTGOING_DIRECT 4660 frame5 5 [1]]
   \<and> send_sequence (snd (request_start 4660 frame5 [1] (new_app :: int list app))) = 0"
proof -
  have f: "sequence frame5 \<notin> dom (pending (new_app :: int list app))"
    by (simp add: new_app_def)
  from f request_uses_frame_sequence
    [of frame5 "new_app :: int list app" 4660 "[1]" 5 0 sample_collab]
  obtain fut s' where a: "request_start 4660 frame5 [1] (new_app :: int list app) = (Inr fut, s')"
    "pending s' = (pending (new_app :: int list app))(sequence frame5 \<mapsto> fut)"
    "ezsp_calls s' = ezsp_calls (new_app :: int list app)
       @ [SendUnicast OUTGOING_DIRECT 4660 frame5 (sequence frame5) [1]]"
    "send_sequence s' = send_sequence (new_app :: int list app)"
    by blast
  have fut: "fut = 0"
    using a(1) by (simp add: request_start_def new_app_def frame5_def issue_def)
  show ?thesis
    using f a fut by (simp add: new_app_def frame5_def)
qed

section \<open>Properties of the device registry\<close>

lemma scan_nwk_mem: "scan_nwk al nwk = Some (k, d) \<Longrightarrow> (k, d) \<in> set al \<and> Some (dev_nwk d) = nwk"
  by (induction al nwk rule: scan_nwk.induct) (auto split: if_splits)

lemma scan_nwk_None: "scan_nwk al nwk = None \<longleftrightarrow> (\<forall>(k, d) \<in> set al. Some (dev_nwk d) \<noteq> nwk)"
  by (induction al nwk rule: scan_nwk.induct) auto

lemma delete_mem: "(k, d) \<in> set (AList.delete i al) \<Longrightarrow> k \<noteq> i \<and> (k, d) \<in> set al"
  by (auto simp: AList.delete_eq)

lemma handle_join_new:
  assumes "map_of (devices s) ieee = None"
  shows "handle_join nwk ieee du jd pn s
     = (Inr (), s\<lparr>logged := logged s @ [(INFO, ''Device 0x%04x (%s) joined the network'')],
                   devices := AList.update ieee (Device ieee nwk) (devices s),
                   emitted := emitted s @ [device_joined (Device ieee nwk)],
                   scheduled := scheduled s @ [Device ieee nwk]\<rparr>)"
  using assms by (simp add: handle_join_def log_line_def add_device_def Let_def)

lemma one_device_devices: "devices one_device = [(11259375, Device 11259375 4660)]"
  by (simp add: one_device_def handle_join_new new_app_def)

lemma registry_ok_one_device: "registry_ok one_device"
  by (simp add: registry_ok_def one_device_devices Device_def)

lemma handle_leave_known:
  assumes "map_of (devices s) ieee = Some dev"
  shows "handle_leave nwk ieee s
     = (Inr (), s\<lparr>logged := logged s @ [(INFO, ''Device 0x%04x (%s) left the network'')],
                   devices := AList.delete ieee (devices s),
                   emitted := emitted s @ [device_left dev]\<rparr>)"
  using assms by (simp add: handle_leave_def log_line_def)

lemma handle_leave_unknown:
  assumes "map_of (devices s) ieee = None"
  shows "handle_leave nwk ieee s
     = (Inr (), s\<lparr>logged := logged s @ [(INFO, ''Device 0x%04x (%s) left the network'')]\<rparr>)"
  using assms by (simp add: handle_leave_def log_line_def)

text \<open>
  C8. A leave notification for stable identity \<open>ieee\<close>: if a device is registered under
  it, the notification removes it (looking it up by identity fails, looking up any short
  address never returns it, the other identities are found as before) and emits one
  \<open>device_left\<close> event with that device; if none is registered, the registry and the
  emitted events are as before and nothing is raised.
\<close>

theorem leave_removes_device:
  "(registry_ok s \<and> map_of (devices s) ieee = Some dev \<longrightarrow>
      (\<exists>s'. ezsp_callback_handler c (trustCenterJoinHandler nwk ieee DEVICE_LEFT jd pn) s
               = (Inr (), s')
         \<and> get_device s' (Some ieee) None = Inl KeyError
         \<and> (\<forall>a d. get_device s' None (Some a) = Inr d \<longrightarrow> dev_ieee d \<noteq> ieee)
         \<and> (\<forall>i. i \<noteq> ieee \<longrightarrow> get_device s' (Some i) None = get_device s (Some i) None)
         \<and> emitted s' = emitted s @ [device_left dev]))
   \<and> (map_of (devices s) ieee = None \<longrightarrow>
      (\<exists>s'. ezsp_callback_handler c (trustCenterJoinHandler nwk ieee DEVICE_LEFT jd pn) s
               = (Inr (), s')
         \<and> devices s' = devices s \<and> emitted s' = emitted s))"
proof (intro conjI impI)
  assume a: "registry_ok s \<and> map_of (devices s) ieee = Some dev"
  then have k: "map_of (devices s) ieee = Some dev" by simp
  let ?s' = "s\<lparr>logged := logged s @ [(INFO, ''Device 0x%04x (%s) left the network'')],
                devices := AList.delete ieee (devices s),
                emitted := emitted s @ [device_left dev]\<rparr>"
  have run: "ezsp_callback_handler c (trustCenterJoinHandler nwk ieee DEVICE_LEFT jd pn) s
      = (Inr (), ?s')"
    by (simp add: handle_leave_known [OF k])
  have byid: "get_device ?s' (Some ieee) None = Inl KeyError"
    by (simp add: get_device_def AList.delete_conv)
  have others: "get_device ?s' (Some i) None = get_device s (Some i) None" if "i \<noteq> ieee" for i
    using that by (simp add: get_device_def AList.delete_conv)
  have bynwk: "dev_ieee d \<noteq> ieee" if g: "get_device ?s' None (Some a) = Inr d" for a d
  proof -
    from g obtain k' where sc: "scan_nwk (AList.delete ieee (devices s)) (Some a) = Some (k', d)"
      by (auto simp: get_device_def split: option.splits)
    have mem: "(k', d) \<in> set (AList.delete ieee (devices s))"
      using scan_nwk_mem [OF sc] by (rule conjunct1)
    have ne: "k' \<noteq> ieee"
      using delete_mem [OF mem] by (rule conjunct1)
    have m: "(k', d) \<in> set (devices s)"
      using delete_mem [OF mem] by (rule conjunct2)
    from a have "\<forall>(k, d) \<in> set (devices s). dev_ieee d = k"
      by (simp add: registry_ok_def)
    with m have "dev_ieee d = k'"
      by (auto simp only: split_paired_all case_prod_conv dest!: bspec)
    with ne show ?thesis by simp
  qed
  show "\<exists>s'. ezsp_callback_handler c (trustCenterJoinHandler nwk ieee DEVICE_LEFT jd pn) s
               = (Inr (), s')
         \<and> get_device s' (Some ieee) None = Inl KeyError
         \<and> (\<forall>a d. get_device s' None (Some a) = Inr d \<longrightarrow> dev_ieee d \<noteq> ieee)
         \<and> (\<forall>i. i \<noteq> ieee \<longrightarrow> get_device s' (Some i) None = get_device s (Some i) None)
         \<and> emitted s' = emitted s @ [device_left dev]"
    using run byid bynwk others by (intro exI [of _ ?s']) simp
next
  assume n: "map_of (devices s) ieee = None"
  show "\<exists>s'. ezsp_callback_handler c (trustCenterJoinHandler nwk ieee DEVICE_LEFT jd pn) s
               = (Inr (), s')
         \<and> devices s' = devices s \<and> emitted s' = emitted s"
    by (simp add: handle_leave_unknown [OF n])
qed

text \<open>
  C8, at an input: the one registered device leaves; and an unknown identity leaves.
\<close>

theorem leave_removes_device_witness:
  "registry_ok one_device
   \<and> map_of (devices one_device) 11259375 = Some (Device 11259375 4660)
   \<and> map_of (devices one_device) 1 = None
   \<and> fst (ezsp_callback_handler sample_collab
            (trustCenterJoinHandler 4660 11259375 DEVICE_LEFT 0 0) one_device) = Inr ()
   \<and> get_device (snd (ezsp_callback_handler sample_collab
            (trustCenterJoinHandler 4660 11259375 DEVICE_LEFT 0 0) one_device))
        (Some 11259375) None = Inl KeyError
   \<and> get_device (snd (ezsp_callback_handler sample_collab
            (trustCenterJoinHandler 4660 11259375 DEVICE_LEFT 0 0) one_device))
        None (Some 4660) = Inl KeyError
   \<and> emitted (snd (ezsp_callback_handler sample_collab
            (trustCenterJoinHandler 4660 11259375 DEVICE_LEFT 0 0) one_device))
        = emitted one_device @ [device_left (Device 11259375 4660)]
   \<and> fst (ezsp_callback_handler sample_collab
            (trustCenterJoinHandler 4660 1 DEVICE_LEFT 0 0) one_device) = Inr ()
   \<and> devices (snd (ezsp_callback_handler sample_collab
            (trustCenterJoinHandler 4660 1 DEVICE_LEFT 0 0) one_device)) = devices one_device
   \<and> emitted (snd (ezsp_callback_handler sample_collab
            (trustCenterJoinHandler 4660 1 DEVICE_LEFT 0 0) one_device)) = emitted one_device"
proof -
  have k: "registry_ok one_device
      \<and> map_of (devices one_device) 11259375 = Some (Device 11259375 4660)"
    using registry_ok_one_device by (simp add: one_device_devices)
  have n: "map_of (devices one_device) 1 = None"
    by (simp add: one_device_devices)
  from k leave_removes_device
    [of one_device 11259375 "Device 11259375 4660" sample_collab 4660 0 0]
  obtain s' where a: "ezsp_callback_handler sample_collab
            (trustCenterJoinHandler 4660 11259375 DEVICE_LEFT 0 0) one_device = (Inr (), s')"
    "get_device s' (Some 11259375) None = Inl KeyError"
    "\<forall>a d. get_device s' None (Some a) = Inr d \<longrightarrow> dev_ieee d \<noteq> 11259375"
    "emitted s' = emitted one_device @ [device_left (Device 11259375 4660)]"
    by blast
  have gone: "get_device s' None (Some 4660) = Inl KeyError"
    using a(1) by (auto simp: handle_leave_def log_line_def one_device_devices get_device_def)
  from n leave_removes_device
    [of one_device 1 "Device 11259375 4660" sample_collab 4660 0 0]
  obtain s'' where b: "ezsp_callback_handler sample_collab
            (trustCenterJoinHandler 4660 1 DEVICE_LEFT 0 0) one_device = (Inr (), s'')"
    "devices s'' = devices one_device" "emitted s'' = emitted one_device"
    by blast
  show ?thesis
    using k n a(1,2,4) gone b by simp
qed

lemma handle_join_duplicate:
  assumes "map_of (devices s) ieee = Some dev" "dev_nwk dev = nwk"
  shows "handle_join nwk ieee du jd pn s
     = (Inr (), s\<lparr>logged := logged s
          @ [(INFO, ''Device 0x%04x (%s) joined the network''),
             (DEBUG, ''Skip initialization for existing device %s'')]\<rparr>)"
  using assms by (simp add: handle_join_def log_line_def)

lemma handle_join_moved:
  assumes "map_of (devices s) ieee = Some dev" "dev_nwk dev \<noteq> nwk"
  shows "handle_join nwk ieee du jd pn s
     = (Inr (), s\<lparr>logged := logged s @ [(INFO, ''Device 0x%04x (%s) joined the network'')],
                   emitted := emitted s @ [device_joined dev],
                   scheduled := scheduled s @ [dev]\<rparr>)"
  using assms by (simp add: handle_join_def log_line_def add_device_def)

text \<open>
  C1, at an input where the code departs from it. Device 0xABCDEF is registered with
  short address 0x1234 and a join notification gives it short address 0x5678. The
  \<open>device_joined\<close> event is emitted and initialization is scheduled, but \<open>add_device\<close>
  returns the existing device as it is: its short address is still 0x1234, and looking
  up 0x5678 finds no device.
\<close>

theorem rejoin_keeps_old_address:
  "get_device one_device (Some 11259375) None = Inr (Device 11259375 4660)
   \<and> (case ezsp_callback_handler sample_collab
             (trustCenterJoinHandler 22136 11259375 STANDARD_SECURITY_UNSECURED_REJOIN 0 0)
             one_device of
        (r, s') \<Rightarrow>
          r = Inr ()
          \<and> map_option dev_nwk (map_of (devices s') 11259375) = Some 4660
          \<and> get_device s' None (Some 22136) = Inl KeyError
          \<and> emitted s' = emitted one_device @ [device_joined (Device 11259375 4660)]
          \<and> scheduled s' = scheduled one_device @ [Device 11259375 4660])"
proof -
  have m: "map_of (devices one_device) 11259375 = Some (Device 11259375 4660)"
    by (simp add: one_device_devices)
  have d: "dev_nwk (Device 11259375 4660) \<noteq> 22136"
    by (simp add: Device_def)
  show ?thesis
    by (simp add: handle_join_moved [OF m d] get_device_def one_device_devices Device_def)
qed

section \<open>A request from start to end\<close>

lemma handle_reply_table:
  "same_table s (snd (handle_reply sender aps_frame tsn command_id args s))
   \<or> popped tsn s (snd (handle_reply sender aps_frame tsn command_id args s))"
  by (cases "pending s tsn"; cases "futures s (the (pending s tsn))")
     (auto simp: handle_reply_def set_result_def same_table_def popped_def log_line_def)

lemma handle_frame_failure_table:
  "same_table s (snd (handle_frame_failure mt dest aps_frame tag status msg s))
   \<or> popped tag s (snd (handle_frame_failure mt dest aps_frame tag status msg s))"
  by (cases "pending s tag"; cases "futures s (the (pending s tag))")
     (auto simp: handle_frame_failure_def set_exception_def same_table_def popped_def log_line_def)

lemma handle_request_table:
  "same_table s (snd (handle_request c sender aps_frame tsn command_id args s))"
  by (auto simp: handle_request_def same_table_def log_line_def split: sum.splits option.splits)

lemma handle_join_table: "same_table s (snd (handle_join nwk ieee du jd pn s))"
  by (auto simp: handle_join_def add_device_def same_table_def log_line_def Let_def
      split: option.splits)

lemma handle_leave_table: "same_table s (snd (handle_leave nwk ieee s))"
  by (auto simp: handle_leave_def same_table_def log_line_def Let_def split: option.splits)

lemma same_table_trans_popped:
  "same_table s s1 \<Longrightarrow> same_table s1 s' \<or> popped t s1 s' \<Longrightarrow> same_table s s' \<or> popped t s s'"
  by (auto simp: same_table_def popped_def)

lemma handle_frame_table:
  "same_table s (snd (handle_frame c mt aps_frame lqi rssi sender bi ai msg s))
   \<or> (\<exists>t. popped t s (snd (handle_frame c mt aps_frame lqi rssi sender bi ai msg s)))"
proof -
  define s1 where "s1 = (case scan_nwk (devices s) (Some sender) of
                   Some (k, dev) \<Rightarrow>
                     s\<lparr>devices := AList.update k (radio_details dev lqi rssi) (devices s)\<rparr>
                 | None \<Rightarrow> log_line DEBUG ''No such device %s'' s)"
  define deserialize where "deserialize = (if destinationEndpoint aps_frame = 0
                          then zdo_deserialize c else zcl_deserialize c)"
  have st: "same_table s s1"
    by (auto simp: s1_def same_table_def log_line_def split: option.splits)
  have unf: "handle_frame c mt aps_frame lqi rssi sender bi ai msg s
     = (case deserialize aps_frame msg of
            Inl err \<Rightarrow> (Inl err, s1)
          | Inr (tsn, command_id, is_reply, args) \<Rightarrow>
              if is_reply
              then handle_reply sender aps_frame tsn command_id args s1
              else handle_request c sender aps_frame tsn command_id args s1)"
    by (simp only: handle_frame_def s1_def deserialize_def Let_def)
  show ?thesis
  proof (cases "deserialize aps_frame msg")
    case (Inl err)
    then show ?thesis using st by (simp add: unf)
  next
    case (Inr r)
    obtain tsn command_id is_reply args where r: "r = (tsn, command_id, is_reply, args)"
      by (cases r)
    show ?thesis
    proof (cases is_reply)
      case True
      then have "snd (handle_frame c mt aps_frame lqi rssi sender bi ai msg s)
          = snd (handle_reply sender aps_frame tsn command_id args s1)"
        using Inr r by (simp add: unf)
      then show ?thesis
        using same_table_trans_popped [OF st handle_reply_table] by metis
    next
      case False
      then have "snd (handle_frame c mt aps_frame lqi rssi sender bi ai msg s)
          = snd (handle_request c sender aps_frame tsn command_id args s1)"
        using Inr r by (simp add: unf)
      then show ?thesis
        using st handle_request_table [of s1] by (simp add: same_table_def)
    qed
  qed
qed

lemma callback_table:
  "same_table s (snd (ezsp_callback_handler c cb s))
   \<or> (\<exists>t. popped t s (snd (ezsp_callback_handler c cb s)))"
proof (cases cb)
  case (incomingMessageHandler mt aps_frame lqi rssi sender bi ai msg)
  then show ?thesis using handle_frame_table by simp
next
  case (messageSentHandler mt dest aps_frame tag status msg)
  then show ?thesis
    using handle_frame_failure_table [of s mt dest aps_frame tag status msg]
    by (auto simp: return_ok_def same_table_def)
next
  case (trustCenterJoinHandler nwk ieee du jd pn)
  then show ?thesis
    using handle_join_table [of s nwk ieee du jd pn] handle_leave_table [of s nwk ieee]
    by simp
next
  case (other_frame name)
  then show ?thesis by (simp add: return_ok_def same_table_def)
qed

lemma request_start_table:
  "same_table s (snd (request_start nwk aps_frame data s))
   \<or> registered (sequence aps_frame) s (snd (request_start nwk aps_frame data s))"
  by (auto simp: request_start_def issue_def Let_def same_table_def registered_def)

lemma request_sent_table:
  "same_table s (snd (request_sent seq status s)) \<or> popped seq s (snd (request_sent seq status s))"
  by (auto simp: request_sent_def same_table_def popped_def split: option.splits)

lemma perform_table:
  "same_table s (perform c act s)
   \<or> (\<exists>t. popped t s (perform c act s))
   \<or> (\<exists>nwk aps_frame data. act = Request nwk aps_frame data
         \<and> registered (sequence aps_frame) s (perform c act s))"
proof (cases act)
  case (Callback cb)
  then show ?thesis using callback_table [of s c cb] by auto
next
  case (Request nwk aps_frame data)
  then show ?thesis using request_start_table [of s nwk aps_frame data] by auto
next
  case (SendAnswered seq status)
  then show ?thesis using request_sent_table [of s seq status] by auto
next
  case GetSequence
  then show ?thesis by (simp add: get_sequence_def same_table_def)
qed

lemma pending_ok_same: "pending_ok s \<Longrightarrow> same_table s s' \<Longrightarrow> pending_ok s'"
  by (simp add: pending_ok_def same_table_def)

lemma pending_ok_popped:
  assumes "pending_ok s" "popped t s s'"
  shows "pending_ok s'"
  unfolding pending_ok_def
proof (intro allI impI)
  fix u f
  assume u: "pending s' u = Some f"
  from assms(2) have p: "pending s' = (pending s)(t := None)"
    and n: "next_future s' = next_future s"
    by (simp_all add: popped_def)
  from u p have ut: "u \<noteq> t" and us: "pending s u = Some f"
    by (auto split: if_splits)
  have f1: "f < next_future s" and f2: "futures s f = FPending"
    using pending_okD(1,2) [OF assms(1) us] by simp_all
  have f3: "futures s' f = FPending"
  proof -
    from assms(2) consider "futures s' = futures s"
      | g r where "pending s t = Some g" "futures s' = (futures s)(g := r)"
      by (auto simp: popped_def)
    then show ?thesis
    proof cases
      case 1
      then show ?thesis using f2 by simp
    next
      case 2
      have "g \<noteq> f"
      proof
        assume "g = f"
        then have "pending s t = Some f" using 2(1) by simp
        then have "t = u" by (rule pending_okD(3) [OF assms(1) us])
        then show False using ut by simp
      qed
      then show ?thesis using 2(2) f2 by simp
    qed
  qed
  have f4: "\<forall>t'. pending s' t' = Some f \<longrightarrow> t' = u"
  proof (intro allI impI)
    fix t'
    assume "pending s' t' = Some f"
    then have "pending s t' = Some f" using p by (auto split: if_splits)
    then show "t' = u" by (rule pending_okD(3) [OF assms(1) us])
  qed
  show "f < next_future s' \<and> futures s' f = FPending \<and> (\<forall>t'. pending s' t' = Some f \<longrightarrow> t' = u)"
    using f1 n f3 f4 by simp
qed

lemma pending_ok_registered:
  assumes "pending_ok s" "registered t s s'"
  shows "pending_ok s'"
  unfolding pending_ok_def
proof (intro allI impI)
  fix u f
  assume u: "pending s' u = Some f"
  from assms(2) have p: "pending s' = (pending s)(t \<mapsto> next_future s)"
    and fu: "futures s' = (futures s)(next_future s := FPending)"
    and n: "next_future s' = Suc (next_future s)"
    by (simp_all add: registered_def)
  have old: "g < next_future s" if "pending s v = Some g" for v g
    using pending_okD(1) [OF assms(1) that] .
  show "f < next_future s' \<and> futures s' f = FPending \<and> (\<forall>t'. pending s' t' = Some f \<longrightarrow> t' = u)"
  proof (cases "u = t")
    case True
    then have f: "f = next_future s" using u p by simp
    have "t' = u" if "pending s' t' = Some f" for t'
    proof (rule ccontr)
      assume "t' \<noteq> u"
      then have "pending s t' = Some (next_future s)"
        using that p True f by (simp split: if_splits)
      then show False using old by blast
    qed
    then show ?thesis using f fu n by simp
  next
    case False
    then have us: "pending s u = Some f" using u p by simp
    have f1: "f < next_future s" and f2: "futures s f = FPending"
      using pending_okD(1,2) [OF assms(1) us] by simp_all
    have "t' = u" if "pending s' t' = Some f" for t'
    proof -
      have "t' \<noteq> t"
      proof
        assume "t' = t"
        then have "f = next_future s" using that p by simp
        then show False using f1 by simp
      qed
      then have "pending s t' = Some f" using that p by simp
      then show ?thesis by (rule pending_okD(3) [OF assms(1) us])
    qed
    then show ?thesis using f1 f2 fu n by auto
  qed
qed

lemma pending_ok_perform: "pending_ok s \<Longrightarrow> pending_ok (perform c act s)"
  using perform_table [of s c act] pending_ok_same pending_ok_popped pending_ok_registered
  by blast

lemma pending_ok_allocated: "pending_ok s \<Longrightarrow> allocated s"
  unfolding pending_ok_def allocated_def by blast

lemma allocated_perform:
  assumes "allocated s"
  shows "allocated (perform c act s)"
proof -
  let ?s' = "perform c act s"
  from assms have old: "\<And>t f. pending s t = Some f \<Longrightarrow> f < next_future s"
    by (simp add: allocated_def)
  from perform_table [of s c act]
  have "\<forall>t f. pending ?s' t = Some f \<longrightarrow> f < next_future ?s'"
  proof (elim disjE exE conjE)
    assume "same_table s ?s'"
    then show ?thesis using old by (simp add: same_table_def)
  next
    fix t assume "popped t s ?s'"
    then have "pending ?s' = (pending s)(t := None)" "next_future ?s' = next_future s"
      by (simp_all add: popped_def)
    then show ?thesis using old by (auto split: if_splits)
  next
    fix nwk and aps_frame :: aps_frame and data
    assume "registered (sequence aps_frame) s ?s'"
    then have "pending ?s' = (pending s)(sequence aps_frame \<mapsto> next_future s)"
      "next_future ?s' = Suc (next_future s)"
      by (simp_all add: registered_def)
    then show ?thesis using old by (auto simp: less_Suc_eq split: if_splits)
  qed
  then show ?thesis by (simp add: allocated_def)
qed

lemma own_entry_perform:
  assumes "own_entry seq fut s"
  shows "own_entry seq fut (perform c act s)"
proof -
  let ?s' = "perform c act s"
  from assms have al: "allocated s" and lt: "fut < next_future s"
    and only: "\<And>t. pending s t = Some fut \<Longrightarrow> t = seq"
    and live: "\<And>t. pending s t = Some fut \<Longrightarrow> futures s fut = FPending"
    by (simp_all add: own_entry_def)
  have al': "allocated ?s'"
    using al by (rule allocated_perform)
  from perform_table [of s c act]
  have "fut < next_future ?s'
    \<and> (\<forall>t. pending ?s' t = Some fut \<longrightarrow> t = seq \<and> futures ?s' fut = FPending)"
  proof (elim disjE exE conjE)
    assume "same_table s ?s'"
    then show ?thesis using lt only live by (simp add: same_table_def)
  next
    fix t assume pop: "popped t s ?s'"
    then have p: "pending ?s' = (pending s)(t := None)"
      and n: "next_future ?s' = next_future s"
      by (simp_all add: popped_def)
    have "u = seq \<and> futures ?s' fut = FPending" if u: "pending ?s' u = Some fut" for u
    proof -
      from u p have ut: "u \<noteq> t" and us: "pending s u = Some fut"
        by (auto split: if_splits)
      from pop consider "futures ?s' = futures s"
        | g r where "pending s t = Some g" "futures ?s' = (futures s)(g := r)"
        by (auto simp: popped_def)
      then have "futures ?s' fut = FPending"
      proof cases
        case 1
        then show ?thesis using live [OF us] by simp
      next
        case 2
        have "g \<noteq> fut"
        proof
          assume "g = fut"
          then have "t = seq" using 2(1) only by simp
          moreover have "u = seq" using us by (rule only)
          ultimately show False using ut by simp
        qed
        then show ?thesis using 2(2) live [OF us] by simp
      qed
      then show ?thesis using only [OF us] by simp
    qed
    then show ?thesis using lt n by simp
  next
    fix nwk and aps_frame :: aps_frame and data
    assume "registered (sequence aps_frame) s ?s'"
    then have p: "pending ?s' = (pending s)(sequence aps_frame \<mapsto> next_future s)"
      and f: "futures ?s' = (futures s)(next_future s := FPending)"
      and n: "next_future ?s' = Suc (next_future s)"
      by (simp_all add: registered_def)
    have "u = seq \<and> futures ?s' fut = FPending" if u: "pending ?s' u = Some fut" for u
    proof -
      have "u \<noteq> sequence aps_frame"
      proof
        assume "u = sequence aps_frame"
        then have "fut = next_future s" using u p by simp
        then show False using lt by simp
      qed
      then have us: "pending s u = Some fut" using u p by simp
      then show ?thesis using only [OF us] live [OF us] f by simp
    qed
    then show ?thesis using lt n by simp
  qed
  then show ?thesis using al' by (simp add: own_entry_def)
qed

lemma sole_entry_perform:
  assumes "sole_entry seq fut s" "\<not> reuses seq act"
  shows "sole_entry seq fut (perform c act s)"
proof -
  let ?s' = "perform c act s"
  from assms(1) have own: "own_entry seq fut s"
    and alt: "pending s seq = Some fut \<or> pending s seq = None"
    by (simp_all add: sole_entry_def)
  have own': "own_entry seq fut ?s'"
    using own by (rule own_entry_perform)
  from perform_table [of s c act]
  have "pending ?s' seq = Some fut \<or> pending ?s' seq = None"
  proof (elim disjE exE conjE)
    assume "same_table s ?s'"
    then show ?thesis using alt by (simp add: same_table_def)
  next
    fix t assume "popped t s ?s'"
    then have "pending ?s' = (pending s)(t := None)"
      by (simp add: popped_def)
    then show ?thesis using alt by auto
  next
    fix nwk and aps_frame :: aps_frame and data
    assume a: "act = Request nwk aps_frame data" and "registered (sequence aps_frame) s ?s'"
    then have "pending ?s' = (pending s)(sequence aps_frame \<mapsto> next_future s)"
      by (simp add: registered_def)
    moreover have "sequence aps_frame \<noteq> seq"
      using assms(2) a by simp
    ultimately show ?thesis using alt by auto
  qed
  then show ?thesis using own' by (simp add: sole_entry_def)
qed

lemma own_entry_fold: "own_entry seq fut s \<Longrightarrow> own_entry seq fut (fold (perform c) acts s)"
  by (induction acts arbitrary: s) (simp_all add: own_entry_perform)

lemma sole_entry_fold:
  "sole_entry seq fut s \<Longrightarrow> \<forall>act \<in> set acts. \<not> reuses seq act
     \<Longrightarrow> sole_entry seq fut (fold (perform c) acts s)"
  by (induction acts arbitrary: s) (simp_all add: sole_entry_perform)

lemma pending_ok_fold: "pending_ok s \<Longrightarrow> pending_ok (fold (perform c) acts s)"
  by (induction acts arbitrary: s) (simp_all add: pending_ok_perform)

lemma request_start_own:
  assumes al: "allocated s" and fresh: "sequence aps_frame \<notin> dom (pending s)"
  shows "sole_entry (sequence aps_frame) (next_future s)
           (snd (request_start nwk aps_frame data s))"
proof -
  let ?s1 = "snd (request_start nwk aps_frame data s)"
  have p: "pending ?s1 = (pending s)(sequence aps_frame \<mapsto> next_future s)"
    and f: "futures ?s1 (next_future s) = FPending"
    and n: "next_future ?s1 = Suc (next_future s)"
    by (simp_all add: request_start_fresh [OF fresh])
  have old: "g < next_future s" if "pending s t = Some g" for t g
    using al that by (simp add: allocated_def)
  have al1: "allocated ?s1"
    unfolding allocated_def
  proof (intro allI impI)
    fix t g
    assume "pending ?s1 t = Some g"
    then have "g = next_future s \<or> pending s t = Some g"
      by (simp add: p split: if_splits)
    then show "g < next_future ?s1"
      using old n by (auto simp: less_Suc_eq)
  qed
  have only: "\<forall>t. pending ?s1 t = Some (next_future s)
      \<longrightarrow> t = sequence aps_frame \<and> futures ?s1 (next_future s) = FPending"
  proof (intro allI impI conjI)
    fix t
    assume t: "pending ?s1 t = Some (next_future s)"
    show "t = sequence aps_frame"
    proof (rule ccontr)
      assume "t \<noteq> sequence aps_frame"
      then have "pending s t = Some (next_future s)" using t by (simp add: p)
      then have "next_future s < next_future s" by (rule old)
      then show False by simp
    qed
    show "futures ?s1 (next_future s) = FPending" by (rule f)
  qed
  have lt: "next_future s < next_future ?s1"
    by (simp add: n)
  have here: "pending ?s1 (sequence aps_frame) = Some (next_future s)"
    by (simp add: p)
  show ?thesis
    unfolding sole_entry_def own_entry_def
    using al1 lt only here by blast
qed

lemma request_unfold:
  assumes "sequence aps_frame \<notin> dom (pending s)"
  shows "request c nwk aps_frame data before (Inr status) after cancelled s =
     (let s2 = fold (perform c) before (snd (request_start nwk aps_frame data s))
      in case request_sent (sequence aps_frame) status s2 of
                (Inl e, s3) \<Rightarrow> (Raised e, s3)
              | (Inr _, s3) \<Rightarrow>
                  (let s4 = fold (perform c) after s3
                   in if cancelled
                      then (Raised CancelledError, cancel_future (next_future s) s4)
                      else (request_await (next_future s) s4, s4)))"
  by (simp add: request_def request_start_fresh [OF assms])

lemma await_done_not_pending:
  assumes "own_entry seq fut s" "request_await fut s \<noteq> Suspended"
  shows "pending s t \<noteq> Some fut"
proof
  assume "pending s t = Some fut"
  then have "futures s fut = FPending"
    using assms(1) by (simp add: own_entry_def)
  then show False using assms(2) by (simp add: request_await_def)
qed

text \<open>
  The two ways a call ends on an exception that comes out of a \<open>yield from\<close>: nothing
  removes the entry it has made.
\<close>

lemma request_thrown_at_send:
  assumes "sequence aps_frame \<notin> dom (pending s)"
  shows "request c nwk aps_frame data [] (Inl e) after cancelled s
           = (Raised e, snd (request_start nwk aps_frame data s))"
    and "pending (snd (request_start nwk aps_frame data s)) (sequence aps_frame)
           = Some (next_future s)"
  by (simp_all add: request_def request_start_fresh [OF assms])

lemma request_cancelled_waiting:
  assumes "sequence aps_frame \<notin> dom (pending s)"
  shows "fst (request c nwk aps_frame data [] (Inr 0) [] True s) = Raised CancelledError"
    and "pending (snd (request c nwk aps_frame data [] (Inr 0) [] True s)) (sequence aps_frame)
           = Some (next_future s)"
    and "futures (snd (request c nwk aps_frame data [] (Inr 0) [] True s)) (next_future s)
           = FCancelled"
  by (simp_all add: request_def request_start_fresh [OF assms] request_sent_def
      cancel_future_def)

text \<open>
  C10 (as stated, refuted). A request with transaction id 5 is sent; its reply arrives
  and completes its future; before the event loop resumes the request, another request
  registers transaction id 5 again. The first request then returns its result while the
  pending table holds an entry for transaction id 5.
\<close>

theorem request_completed_id_reused:
  "fst (request sample_collab 4660 frame5 [1] [] (Inr 0)
          [Callback reply5, Request 22136 frame5 [2]] False new_app) = Returned [7]
   \<and> pending (snd (request sample_collab 4660 frame5 [1] [] (Inr 0)
          [Callback reply5, Request 22136 frame5 [2]] False new_app)) (sequence frame5) = Some 1"
  by (simp add: request_def request_start_def request_sent_def request_await_def
        new_app_def frame5_def reply5_def issue_def sample_collab_def byte_codec_def
        handle_frame_def handle_reply_def set_result_def log_line_def Let_def)

text \<open>
  C10 (amended). Take a call of \<open>request\<close> whose send was answered with a status and
  which has returned a result or raised a send failure: the one it raises itself for a
  status other than 0, or the one a send-completion has put into its future. The
  pending table no longer holds the entry the call made (its transaction id referring
  to its future). When the call raised its own send failure for a status other than 0,
  the table holds no entry for its transaction id. If no other request registered the
  same transaction id while the call was under way, the table holds no entry for that
  id in any of these cases, and when the call raised its own send failure for a status
  other than 0, its future was never completed.
\<close>

theorem request_completed_entry_gone:
  assumes al: "allocated s"
    and run: "request c nwk aps_frame data before (Inr status) after cancelled s = (out, s')"
    and scope: "out = Returned r
      \<or> out = Raised (Exception ''Message send failure %s'' [status])
      \<or> out = Raised (Exception ''Message send failure'' [])"
  shows "pending s' (sequence aps_frame) \<noteq> Some (next_future s)
     \<and> (status \<noteq> 0 \<and> out = Raised (Exception ''Message send failure %s'' [status])
           \<longrightarrow> pending s' (sequence aps_frame) = None)
     \<and> ((\<forall>act \<in> set (before @ after). \<not> reuses (sequence aps_frame) act) \<longrightarrow>
           pending s' (sequence aps_frame) = None
           \<and> (status \<noteq> 0 \<and> out = Raised (Exception ''Message send failure %s'' [status])
                \<longrightarrow> futures s' (next_future s) = FPending))"
proof -
  let ?seq = "sequence aps_frame" and ?fut = "next_future s"
  let ?s1 = "snd (request_start nwk aps_frame data s)"
  let ?s2 = "fold (perform c) before ?s1"
  let ?quiet = "\<forall>act \<in> set (before @ after). \<not> reuses ?seq act"
  have fin: "out \<noteq> Suspended" and "out \<noteq> Raised AssertionError"
    and nokey: "out \<noteq> Raised KeyError" and nocancel: "out \<noteq> Raised CancelledError"
    using scope by auto
  have fresh: "?seq \<notin> dom (pending s)"
  proof
    assume "?seq \<in> dom (pending s)"
    then have "request c nwk aps_frame data before (Inr status) after cancelled s
        = (Raised AssertionError, s)"
      by (simp add: request_def request_start_def)
    then show False
      using run \<open>out \<noteq> Raised AssertionError\<close> by simp
  qed
  have sole1: "sole_entry ?seq ?fut ?s1"
    using al fresh by (rule request_start_own)
  then have own2: "own_entry ?seq ?fut ?s2"
    by (simp add: sole_entry_def own_entry_fold)
  have sole2: "sole_entry ?seq ?fut ?s2" if ?quiet
    using sole1 that by (simp add: sole_entry_fold)
  note unf = request_unfold [OF fresh, of c nwk data before status after cancelled]
  show ?thesis
  proof (cases "status = 0")
    case True
    let ?s4 = "fold (perform c) after ?s2"
    have live: "\<not> cancelled"
    proof
      assume cancelled
      then have "out = Raised CancelledError"
        using run unf True by (simp add: request_sent_def Let_def)
      then show False using nocancel by simp
    qed
    have res: "out = request_await ?fut ?s4" "s' = ?s4"
      using run unf True live by (simp_all add: request_sent_def Let_def)
    have own4: "own_entry ?seq ?fut ?s4"
      using own2 by (rule own_entry_fold)
    have gone: "pending ?s4 ?seq \<noteq> Some ?fut"
      using own4 fin res(1) by (intro await_done_not_pending) simp_all
    have "pending ?s4 ?seq = None" if ?quiet
    proof -
      have "sole_entry ?seq ?fut ?s4"
        using sole2 [OF that] that by (simp add: sole_entry_fold)
      then show ?thesis using gone by (auto simp: sole_entry_def)
    qed
    then show ?thesis using gone res(2) True by simp
  next
    case False
    show ?thesis
    proof (cases "pending ?s2 ?seq")
      case None
      then have "out = Raised KeyError"
        using run unf False by (simp add: request_sent_def Let_def)
      then show ?thesis using nokey by simp
    next
      case (Some g)
      then have res: "s' = ?s2\<lparr>pending := (pending ?s2)(?seq := None)\<rparr>"
        using run unf False by (simp add: request_sent_def Let_def)
      have "futures s' ?fut = FPending" if ?quiet
      proof -
        have "sole_entry ?seq ?fut ?s2" using that by (rule sole2)
        then have alt: "pending ?s2 ?seq = Some ?fut \<or> pending ?s2 ?seq = None"
          and live: "pending ?s2 ?seq = Some ?fut \<longrightarrow> futures ?s2 ?fut = FPending"
          by (simp_all add: sole_entry_def own_entry_def)
        from alt Some have "pending ?s2 ?seq = Some ?fut" by simp
        with live have "futures ?s2 ?fut = FPending" by simp
        then show ?thesis by (simp add: res)
      qed
      moreover have "pending s' ?seq = None"
        by (simp add: res)
      ultimately show ?thesis by simp
    qed
  qed
qed

text \<open>
  C10 (amended), at an input: a request with transaction id 5 whose reply arrives.
\<close>

theorem request_completed_entry_gone_witness:
  "allocated (new_app :: int list app)
   \<and> fst (request sample_collab 4660 frame5 [1] [] (Inr 0) [Callback reply5] False new_app)
        = Returned [7]
   \<and> pending (snd (request sample_collab 4660 frame5 [1] [] (Inr 0) [Callback reply5] False
        new_app)) (sequence frame5) = None"
proof -
  let ?r = "request sample_collab 4660 frame5 [1] [] (Inr 0) [Callback reply5] False
              (new_app :: int list app)"
  have ok: "allocated (new_app :: int list app)"
    by (simp add: allocated_def new_app_def)
  have out: "fst ?r = Returned [7]"
    by (simp add: request_def request_start_def request_sent_def request_await_def
        new_app_def frame5_def reply5_def issue_def sample_collab_def byte_codec_def
        handle_frame_def handle_reply_def set_result_def log_line_def Let_def)
  have run: "?r = (fst ?r, snd ?r)" by simp
  have scope: "fst ?r = Returned [7]
      \<or> fst ?r = Raised (Exception ''Message send failure %s'' [0])
      \<or> fst ?r = Raised (Exception ''Message send failure'' [])"
    using out by simp
  have quiet: "\<forall>act \<in> set ([] @ [Callback reply5]). \<not> reuses (sequence frame5) act"
    by simp
  show ?thesis
    using ok out quiet request_completed_entry_gone [OF ok run scope] by simp
qed

section \<open>Properties of the startup sequence\<close>

lemma and_then_issue:
  "and_then (issue c) f s = f (ezsp_calls s @ [c]) (s\<lparr>ezsp_calls := ezsp_calls s @ [c]\<rparr>)"
  by (simp add: and_then_def issue_def)

lemma and_then_assert:
  "and_then (py_assert b) f s = (if b then f () s else (Inl AssertionError, s))"
  by (simp add: and_then_def py_assert_def return_ok_def raise_def)

lemma and_then_cfg:
  "and_then (cfg e k v) f s =
     (if setConfigurationValue_result e (ezsp_calls s @ [SetConfigurationValue k v]) = 0
      then f () (s\<lparr>ezsp_calls := ezsp_calls s @ [SetConfigurationValue k v]\<rparr>)
      else (Inl AssertionError, s\<lparr>ezsp_calls := ezsp_calls s @ [SetConfigurationValue k v]\<rparr>))"
  by (simp add: and_then_def cfg_def issue_def py_assert_def return_ok_def raise_def)

lemma and_then_role:
  "and_then (if b then raise x else return_ok ()) f s = (if b then (Inl x, s) else f () s)"
  by (simp add: and_then_def return_ok_def raise_def)

lemma and_then_set_nwk: "and_then (set_nwk n) f s = f () (s\<lparr>app_nwk := Some n\<rparr>)"
  by (simp add: and_then_def set_nwk_def)

lemma and_then_set_ieee: "and_then (set_ieee i) f s = f () (s\<lparr>app_ieee := Some i\<rparr>)"
  by (simp add: and_then_def set_ieee_def)

lemma and_then_assoc:
  "and_then (and_then m f) g = and_then m (\<lambda>r. and_then (f r) g)"
  by (auto simp: and_then_def fun_eq_iff split: prod.splits sum.splits)

lemmas startup_steps =
  and_then_issue and_then_assert and_then_cfg and_then_role and_then_set_nwk and_then_set_ieee
  and_then_assoc

lemma startup_explicit:
  "startup e s =
    (if setConfigurationValue_result e (history s 3) \<noteq> 0
     then (Inl AssertionError, s\<lparr>ezsp_calls := history s 3\<rparr>)
     else if setConfigurationValue_result e (history s 4) \<noteq> 0
     then (Inl AssertionError, s\<lparr>ezsp_calls := history s 4\<rparr>)
     else if setConfigurationValue_result e (history s 5) \<noteq> 0
     then (Inl AssertionError, s\<lparr>ezsp_calls := history s 5\<rparr>)
     else if setConfigurationValue_result e (history s 6) \<noteq> 0
     then (Inl AssertionError, s\<lparr>ezsp_calls := history s 6\<rparr>)
     else if setConfigurationValue_result e (history s 7) \<noteq> 0
     then (Inl AssertionError, s\<lparr>ezsp_calls := history s 7\<rparr>)
     else if setConfigurationValue_result e (history s 8) \<noteq> 0
     then (Inl AssertionError, s\<lparr>ezsp_calls := history s 8\<rparr>)
     else if setConfigurationValue_result e (history s 9) \<noteq> 0
     then (Inl AssertionError, s\<lparr>ezsp_calls := history s 9\<rparr>)
     else if networkInit_result e (history s 10) \<noteq> 0
     then (Inl AssertionError, s\<lparr>ezsp_calls := history s 10\<rparr>)
     else if fst (getNetworkParameters_result e (history s 11)) \<noteq> 0
     then (Inl AssertionError, s\<lparr>ezsp_calls := history s 11\<rparr>)
     else if snd (getNetworkParameters_result e (history s 11)) \<noteq> COORDINATOR
     then (Inl (Exception ''Network not configured as coordinator'' []),
           s\<lparr>ezsp_calls := history s 11\<rparr>)
     else if setPolicy_result e (history s 12) \<noteq> 0
     then (Inl AssertionError, s\<lparr>ezsp_calls := history s 12\<rparr>)
     else if setPolicy_result e (history s 13) \<noteq> 0
     then (Inl AssertionError, s\<lparr>ezsp_calls := history s 13\<rparr>)
     else if setPolicy_result e (history s 14) \<noteq> 0
     then (Inl AssertionError, s\<lparr>ezsp_calls := history s 14\<rparr>)
     else (Inr (), s\<lparr>ezsp_calls := history s 17,
                       app_nwk := Some (getNodeId_result e (history s 15)),
                       app_ieee := Some (getEui64_result e (history s 16))\<rparr>))"
  by (simp add: startup_def policy_def startup_steps history_def startup_calls_def return_ok_def)

lemma status_of_history:
  "status_of e (history s 1) = None"
  "status_of e (history s 2) = None"
  "status_of e (history s 3) = Some (setConfigurationValue_result e (history s 3))"
  "status_of e (history s 4) = Some (setConfigurationValue_result e (history s 4))"
  "status_of e (history s 5) = Some (setConfigurationValue_result e (history s 5))"
  "status_of e (history s 6) = Some (setConfigurationValue_result e (history s 6))"
  "status_of e (history s 7) = Some (setConfigurationValue_result e (history s 7))"
  "status_of e (history s 8) = Some (setConfigurationValue_result e (history s 8))"
  "status_of e (history s 9) = Some (setConfigurationValue_result e (history s 9))"
  "status_of e (history s 10) = Some (networkInit_result e (history s 10))"
  "status_of e (history s 11) = Some (fst (getNetworkParameters_result e (history s 11)))"
  "status_of e (history s 12) = Some (setPolicy_result e (history s 12))"
  "status_of e (history s 13) = Some (setPolicy_result e (history s 13))"
  "status_of e (history s 14) = Some (setPolicy_result e (history s 14))"
  "status_of e (history s 15) = None"
  "status_of e (history s 16) = None"
  "status_of e (history s 17) = None"
  by (simp_all add: status_of_def history_def startup_calls_def)

lemma status_of_later: "17 \<le> k \<Longrightarrow> status_of e (history s k) = None"
  by (simp add: status_of_def history_def startup_calls_def)

lemma answers_ok_at:
  assumes "answers_ok e s n" "k < n" "status_of e (history s (Suc k)) = Some st"
  shows "st = 0"
  using assms unfolding answers_ok_def by fastforce

lemma answers_okD:
  assumes "answers_ok e s n"
  shows "2 < n \<Longrightarrow> setConfigurationValue_result e (history s 3) = 0"
    "3 < n \<Longrightarrow> setConfigurationValue_result e (history s 4) = 0"
    "4 < n \<Longrightarrow> setConfigurationValue_result e (history s 5) = 0"
    "5 < n \<Longrightarrow> setConfigurationValue_result e (history s 6) = 0"
    "6 < n \<Longrightarrow> setConfigurationValue_result e (history s 7) = 0"
    "7 < n \<Longrightarrow> setConfigurationValue_result e (history s 8) = 0"
    "8 < n \<Longrightarrow> setConfigurationValue_result e (history s 9) = 0"
    "9 < n \<Longrightarrow> networkInit_result e (history s 10) = 0"
    "10 < n \<Longrightarrow> fst (getNetworkParameters_result e (history s 11)) = 0"
    "11 < n \<Longrightarrow> setPolicy_result e (history s 12) = 0"
    "12 < n \<Longrightarrow> setPolicy_result e (history s 13) = 0"
    "13 < n \<Longrightarrow> setPolicy_result e (history s 14) = 0"
  using answers_ok_at [OF assms, of 2] answers_ok_at [OF assms, of 3]
    answers_ok_at [OF assms, of 4] answers_ok_at [OF assms, of 5]
    answers_ok_at [OF assms, of 6] answers_ok_at [OF assms, of 7]
    answers_ok_at [OF assms, of 8] answers_ok_at [OF assms, of 9]
    answers_ok_at [OF assms, of 10] answers_ok_at [OF assms, of 11]
    answers_ok_at [OF assms, of 12] answers_ok_at [OF assms, of 13]
  by (simp_all add: status_of_history)

lemma length_startup_calls: "length startup_calls = 17"
  by (simp add: startup_calls_def)

lemma new_app_history: "history (new_app :: 'a app) k = take k startup_calls"
  by (simp add: history_def new_app_def)

lemma good_ncp_status: "status_of good_ncp h = None \<or> status_of good_ncp h = Some 0"
  by (simp add: status_of_def good_ncp_def split: ezsp_call.splits)

lemma router_ncp_status: "status_of router_ncp h = None \<or> status_of router_ncp h = Some 0"
  by (simp add: status_of_def router_ncp_def good_ncp_def split: ezsp_call.splits)

text \<open>
  C5. If every call of the startup sequence that is checked reports status 0 and the
  network parameters give the role coordinator, \<open>startup\<close> returns, and the short
  address and the stable identity of the session are set to what \<open>getNodeId\<close> and
  \<open>getEui64\<close> answered. If the calls up to the fetch of the network parameters report
  status 0 and the role is not coordinator, \<open>startup\<close> raises "Network not configured
  as coordinator", makes no further call, and leaves address and identity as they were.
\<close>

theorem startup_latches_only_as_coordinator:
  "(answers_ok e s (length startup_calls)
      \<and> snd (getNetworkParameters_result e (history s 11)) = COORDINATOR \<longrightarrow>
      (\<exists>s'. startup e s = (Inr (), s')
         \<and> app_nwk s' = Some (getNodeId_result e (history s 15))
         \<and> app_ieee s' = Some (getEui64_result e (history s 16))
         \<and> ezsp_calls s' = ezsp_calls s @ startup_calls))
   \<and> (answers_ok e s 11
      \<and> snd (getNetworkParameters_result e (history s 11)) \<noteq> COORDINATOR \<longrightarrow>
      (\<exists>s'. startup e s = (Inl (Exception ''Network not configured as coordinator'' []), s')
         \<and> app_nwk s' = app_nwk s \<and> app_ieee s' = app_ieee s
         \<and> ezsp_calls s' = ezsp_calls s @ take 11 startup_calls))"
proof (intro conjI impI)
  assume a: "answers_ok e s (length startup_calls)
      \<and> snd (getNetworkParameters_result e (history s 11)) = COORDINATOR"
  then have ok: "answers_ok e s 17"
    by (simp add: length_startup_calls)
  note facts = answers_okD [OF ok]
  have "startup e s = (Inr (), s\<lparr>ezsp_calls := history s 17,
                       app_nwk := Some (getNodeId_result e (history s 15)),
                       app_ieee := Some (getEui64_result e (history s 16))\<rparr>)"
    using a by (simp add: startup_explicit facts)
  moreover have "history s 17 = ezsp_calls s @ startup_calls"
    by (simp add: history_def length_startup_calls)
  ultimately show "\<exists>s'. startup e s = (Inr (), s')
         \<and> app_nwk s' = Some (getNodeId_result e (history s 15))
         \<and> app_ieee s' = Some (getEui64_result e (history s 16))
         \<and> ezsp_calls s' = ezsp_calls s @ startup_calls"
    by simp
next
  assume a: "answers_ok e s 11
      \<and> snd (getNetworkParameters_result e (history s 11)) \<noteq> COORDINATOR"
  then have ok: "answers_ok e s 11" by simp
  note facts = answers_okD [OF ok]
  have "startup e s = (Inl (Exception ''Network not configured as coordinator'' []),
           s\<lparr>ezsp_calls := history s 11\<rparr>)"
    using a by (simp add: startup_explicit facts)
  then show "\<exists>s'. startup e s = (Inl (Exception ''Network not configured as coordinator'' []), s')
         \<and> app_nwk s' = app_nwk s \<and> app_ieee s' = app_ieee s
         \<and> ezsp_calls s' = ezsp_calls s @ take 11 startup_calls"
    by (simp add: history_def)
qed

text \<open>
  C5, at an input: a fresh application object with a driver that reports a
  coordinator, and with one that reports a router.
\<close>

theorem startup_latches_only_as_coordinator_witness:
  "answers_ok good_ncp (new_app :: unit app) (length startup_calls)
   \<and> snd (getNetworkParameters_result good_ncp (history (new_app :: unit app) 11)) = COORDINATOR
   \<and> fst (startup good_ncp (new_app :: unit app)) = Inr ()
   \<and> app_nwk (snd (startup good_ncp (new_app :: unit app))) = Some 0
   \<and> app_ieee (snd (startup good_ncp (new_app :: unit app))) = Some 3781220488645181
   \<and> answers_ok router_ncp (new_app :: unit app) 11
   \<and> snd (getNetworkParameters_result router_ncp (history (new_app :: unit app) 11)) \<noteq> COORDINATOR
   \<and> fst (startup router_ncp (new_app :: unit app))
        = Inl (Exception ''Network not configured as coordinator'' [])
   \<and> app_nwk (snd (startup router_ncp (new_app :: unit app))) = None
   \<and> app_ieee (snd (startup router_ncp (new_app :: unit app))) = None
   \<and> ezsp_calls (snd (startup router_ncp (new_app :: unit app))) = take 11 startup_calls"
proof -
  let ?s = "new_app :: unit app"
  have g: "answers_ok good_ncp ?s (length startup_calls)
      \<and> snd (getNetworkParameters_result good_ncp (history ?s 11)) = COORDINATOR"
    using good_ncp_status by (simp add: answers_ok_def good_ncp_def)
  have r: "answers_ok router_ncp ?s 11
      \<and> snd (getNetworkParameters_result router_ncp (history ?s 11)) \<noteq> COORDINATOR"
    using router_ncp_status by (simp add: answers_ok_def router_ncp_def good_ncp_def)
  from g startup_latches_only_as_coordinator [of good_ncp ?s]
  obtain s' where a: "startup good_ncp ?s = (Inr (), s')"
    "app_nwk s' = Some (getNodeId_result good_ncp (history ?s 15))"
    "app_ieee s' = Some (getEui64_result good_ncp (history ?s 16))"
    by blast
  from r startup_latches_only_as_coordinator [of router_ncp ?s]
  obtain s'' where b:
    "startup router_ncp ?s = (Inl (Exception ''Network not configured as coordinator'' []), s'')"
    "app_nwk s'' = app_nwk ?s" "app_ieee s'' = app_ieee ?s"
    "ezsp_calls s'' = ezsp_calls ?s @ take 11 startup_calls"
    by blast
  have v: "getNodeId_result good_ncp (history ?s 15) = 0"
    "getEui64_result good_ncp (history ?s 16) = 3781220488645181"
    by (simp_all add: good_ncp_def)
  have n: "app_nwk ?s = None" "app_ieee ?s = None" "ezsp_calls ?s = []"
    by (simp_all add: new_app_def)
  show ?thesis
    using g r a b v n by simp
qed

lemma checked_index:
  assumes "status_of e (history s (Suc k)) = Some st"
  shows "2 \<le> k \<and> k \<le> 13"
proof (rule ccontr)
  assume "\<not> (2 \<le> k \<and> k \<le> 13)"
  then consider "k = 0" | "k = 1" | "k = 14" | "k = 15" | "16 \<le> k"
    by arith
  then have "status_of e (history s (Suc k)) = None"
  proof cases
    case 1
    then have "Suc k = 1" by simp
    then show ?thesis by (simp only: status_of_history)
  next
    case 2
    then have "Suc k = 2" by simp
    then show ?thesis by (simp only: status_of_history)
  next
    case 3
    then show ?thesis by (simp add: status_of_history)
  next
    case 4
    then show ?thesis by (simp add: status_of_history)
  next
    case 5
    then show ?thesis by (simp add: status_of_later)
  qed
  then show False using assms by simp
qed

text \<open>
  C6 (as stated, refuted). The driver answers \<open>reset\<close> and \<open>version\<close> with a leading
  1 and everything else with success: \<open>startup\<close> never looks at those two answers and
  runs to its end, all calls made and the address set.
\<close>

theorem startup_ignores_reset_answer:
  "hd (reset_result reset_failed_ncp (history (new_app :: unit app) 1)) = 1
   \<and> hd (version_result reset_failed_ncp (history (new_app :: unit app) 2)) = 1
   \<and> fst (startup reset_failed_ncp (new_app :: unit app)) = Inr ()
   \<and> ezsp_calls (snd (startup reset_failed_ncp (new_app :: unit app))) = startup_calls
   \<and> app_nwk (snd (startup reset_failed_ncp (new_app :: unit app))) = Some 0"
proof -
  let ?s = "new_app :: unit app"
  have "startup reset_failed_ncp ?s = (Inr (), ?s\<lparr>ezsp_calls := history ?s 17,
                       app_nwk := Some (getNodeId_result reset_failed_ncp (history ?s 15)),
                       app_ieee := Some (getEui64_result reset_failed_ncp (history ?s 16))\<rparr>)"
    by (simp add: startup_explicit reset_failed_ncp_def good_ncp_def)
  moreover have "history ?s 17 = startup_calls"
    by (simp add: new_app_history length_startup_calls)
  ultimately show ?thesis
    by (simp add: reset_failed_ncp_def good_ncp_def)
qed

text \<open>
  C6 (amended). The answers to the configuration writes, to \<open>networkInit\<close>, to
  \<open>getNetworkParameters\<close> and to the policy installs are checked. When the first \<open>k\<close>
  calls have passed and call \<open>k + 1\<close> is a checked one reporting a status other than 0
  (the role being coordinator if the sequence is past that check), \<open>startup\<close> raises
  \<open>AssertionError\<close>, which carries no name of the step, and the only change to the
  application object is the record of the first \<open>k + 1\<close> calls: no later call is made and
  nothing is set.
\<close>

theorem startup_stops_at_first_refusal:
  assumes first: "answers_ok e s k"
    and refused: "status_of e (history s (Suc k)) = Some st" "st \<noteq> 0"
    and role: "10 < k \<longrightarrow> snd (getNetworkParameters_result e (history s 11)) = COORDINATOR"
  shows "startup e s = (Inl AssertionError, s\<lparr>ezsp_calls := history s (Suc k)\<rparr>)"
proof -
  note facts = answers_okD [OF first]
  from checked_index [OF refused(1)]
  have "k = 2 \<or> k = 3 \<or> k = 4 \<or> k = 5 \<or> k = 6 \<or> k = 7 \<or> k = 8 \<or> k = 9
    \<or> k = 10 \<or> k = 11 \<or> k = 12 \<or> k = 13"
    by presburger
  then consider "k = 2" | "k = 3" | "k = 4" | "k = 5" | "k = 6" | "k = 7" | "k = 8" | "k = 9"
    | "k = 10" | "k = 11" | "k = 12" | "k = 13"
    by blast
  then show ?thesis
  proof cases
    case 1
    then show ?thesis using refused by (simp add: startup_explicit status_of_history)
  next
    case 2
    then show ?thesis using refused facts by (simp add: startup_explicit status_of_history)
  next
    case 3
    then show ?thesis using refused facts by (simp add: startup_explicit status_of_history)
  next
    case 4
    then show ?thesis using refused facts by (simp add: startup_explicit status_of_history)
  next
    case 5
    then show ?thesis using refused facts by (simp add: startup_explicit status_of_history)
  next
    case 6
    then show ?thesis using refused facts by (simp add: startup_explicit status_of_history)
  next
    case 7
    then show ?thesis using refused facts by (simp add: startup_explicit status_of_history)
  next
    case 8
    then show ?thesis using refused facts by (simp add: startup_explicit status_of_history)
  next
    case 9
    then show ?thesis using refused facts by (simp add: startup_explicit status_of_history)
  next
    case 10
    then show ?thesis using refused facts role
      by (simp add: startup_explicit status_of_history)
  next
    case 11
    then show ?thesis using refused facts role
      by (simp add: startup_explicit status_of_history)
  next
    case 12
    then show ?thesis using refused facts role
      by (simp add: startup_explicit status_of_history)
  qed
qed

lemma fourth_write_status:
  "setConfigurationValue_result fourth_write_refused_ncp (history (new_app :: unit app) k)
     = (if min k 17 = 6 then 1 else 0)"
  by (simp add: fourth_write_refused_ncp_def good_ncp_def new_app_history length_startup_calls
      min.commute)

lemma fourth_write_first: "answers_ok fourth_write_refused_ncp (new_app :: unit app) 5"
  unfolding answers_ok_def
proof (intro allI impI)
  fix k :: nat
  assume "k < 5"
  then have "k = 0 \<or> k = 1 \<or> k = 2 \<or> k = 3 \<or> k = 4"
    by presburger
  then consider "Suc k = 1" | "Suc k = 2" | "Suc k = 3" | "Suc k = 4" | "Suc k = 5"
    by auto
  then show "status_of fourth_write_refused_ncp (history (new_app :: unit app) (Suc k)) = None
     \<or> status_of fourth_write_refused_ncp (history (new_app :: unit app) (Suc k)) = Some 0"
    by cases (simp_all only: status_of_history fourth_write_status, simp_all)
qed

text \<open>
  C6 (amended), at an input: the driver refuses the second write of
  \<open>CONFIG_SUPPORTED_NETWORKS\<close>, the sixth call of the sequence.
\<close>

theorem startup_stops_at_first_refusal_witness:
  "answers_ok fourth_write_refused_ncp (new_app :: unit app) 5
   \<and> status_of fourth_write_refused_ncp (history (new_app :: unit app) (Suc 5)) = Some 1
   \<and> (1::int) \<noteq> 0
   \<and> fst (startup fourth_write_refused_ncp (new_app :: unit app)) = Inl AssertionError
   \<and> ezsp_calls (snd (startup fourth_write_refused_ncp (new_app :: unit app)))
        = [Reset, Version 4,
           SetConfigurationValue CONFIG_STACK_PROFILE (Num 2),
           SetConfigurationValue CONFIG_SECURITY_LEVEL (Num 5),
           SetConfigurationValue CONFIG_SUPPORTED_NETWORKS (Num 1),
           SetConfigurationValue CONFIG_SUPPORTED_NETWORKS (Num 1)]
   \<and> app_nwk (snd (startup fourth_write_refused_ncp (new_app :: unit app))) = None
   \<and> app_ieee (snd (startup fourth_write_refused_ncp (new_app :: unit app))) = None"
proof -
  let ?s = "new_app :: unit app"
  have st: "status_of fourth_write_refused_ncp (history ?s (Suc 5)) = Some 1"
    by (simp add: status_of_history fourth_write_status)
  have ne: "(1::int) \<noteq> 0" by simp
  have role: "10 < (5::nat) \<longrightarrow>
      snd (getNetworkParameters_result fourth_write_refused_ncp (history ?s 11)) = COORDINATOR"
    by simp
  have run: "startup fourth_write_refused_ncp ?s
      = (Inl AssertionError, ?s\<lparr>ezsp_calls := history ?s (Suc 5)\<rparr>)"
    using startup_stops_at_first_refusal [OF fourth_write_first st ne role] .
  have h: "history ?s (Suc 5) = [Reset, Version 4,
           SetConfigurationValue CONFIG_STACK_PROFILE (Num 2),
           SetConfigurationValue CONFIG_SECURITY_LEVEL (Num 5),
           SetConfigurationValue CONFIG_SUPPORTED_NETWORKS (Num 1),
           SetConfigurationValue CONFIG_SUPPORTED_NETWORKS (Num 1)]"
    by (simp add: new_app_history startup_calls_def)
  show ?thesis
    using fourth_write_first st run h by (simp add: new_app_def)
qed

section \<open>The invariants are kept\<close>

text \<open>
  The table invariant is kept by every activity (\<open>pending_ok_perform\<close> above). The same
  holds for the registry invariant, and \<open>startup\<close> touches neither table. That the
  futures in the table are allocated ones is kept by a whole call of \<open>request\<close> as well,
  however it ends.
\<close>

lemma registry_ok_new_app: "registry_ok new_app"
  by (simp add: registry_ok_def new_app_def)

lemma update_mem:
  "(k', d') \<in> set (AList.update k v al) \<Longrightarrow> (k', d') = (k, v) \<or> (k', d') \<in> set al"
  by (induction al) (auto split: if_splits)

lemma registry_ok_update:
  assumes "registry_ok s" "dev_ieee d = k"
  shows "registry_ok (s\<lparr>devices := AList.update k d (devices s)\<rparr>)"
proof -
  have "distinct (map fst (AList.update k d (devices s)))"
    using assms(1) by (simp add: registry_ok_def distinct_update)
  moreover have "dev_ieee d' = k'" if "(k', d') \<in> set (AList.update k d (devices s))" for k' d'
  proof -
    from update_mem [OF that] show ?thesis
    proof
      assume "(k', d') = (k, d)"
      then show ?thesis using assms(2) by simp
    next
      assume "(k', d') \<in> set (devices s)"
      then show ?thesis using assms(1) by (auto simp: registry_ok_def)
    qed
  qed
  ultimately show ?thesis
    by (auto simp: registry_ok_def)
qed

lemma registry_ok_delete:
  assumes "registry_ok s"
  shows "registry_ok (s\<lparr>devices := AList.delete k (devices s)\<rparr>)"
proof -
  have "distinct (map fst (AList.delete k (devices s)))"
    using assms by (simp add: registry_ok_def distinct_delete)
  moreover have "dev_ieee d' = k'" if "(k', d') \<in> set (AList.delete k (devices s))" for k' d'
    using delete_mem [OF that] assms by (auto simp: registry_ok_def)
  ultimately show ?thesis
    by (auto simp: registry_ok_def)
qed

lemma registry_ok_devices: "devices s' = devices s \<Longrightarrow> registry_ok s \<Longrightarrow> registry_ok s'"
  by (simp add: registry_ok_def)

lemma handle_join_registry:
  assumes "registry_ok s"
  shows "registry_ok (snd (handle_join nwk ieee du jd pn s))"
proof (cases "map_of (devices s) ieee")
  case None
  have "registry_ok (s\<lparr>devices := AList.update ieee (Device ieee nwk) (devices s)\<rparr>)"
    using assms by (rule registry_ok_update) (simp add: Device_def)
  then show ?thesis
    by (simp add: handle_join_new [OF None] registry_ok_def)
next
  case (Some dev)
  show ?thesis
  proof (cases "dev_nwk dev = nwk")
    case True
    then show ?thesis
      using assms by (simp add: handle_join_duplicate [OF Some] registry_ok_def)
  next
    case False
    then show ?thesis
      using assms by (simp add: handle_join_moved [OF Some] registry_ok_def)
  qed
qed

lemma handle_leave_registry:
  assumes "registry_ok s"
  shows "registry_ok (snd (handle_leave nwk ieee s))"
proof (cases "map_of (devices s) ieee")
  case None
  then show ?thesis
    using assms by (simp add: handle_leave_unknown registry_ok_def)
next
  case (Some dev)
  have "registry_ok (s\<lparr>devices := AList.delete ieee (devices s)\<rparr>)"
    using assms by (rule registry_ok_delete)
  then show ?thesis
    by (simp add: handle_leave_known [OF Some] registry_ok_def)
qed

lemma handle_reply_devices:
  "devices (snd (handle_reply sender aps_frame tsn command_id args s)) = devices s"
  by (simp add: handle_reply_def set_result_def log_line_def split: option.splits future.splits)

lemma handle_request_devices:
  "devices (snd (handle_request c sender aps_frame tsn command_id args s)) = devices s"
  by (simp add: handle_request_def log_line_def split: sum.splits option.splits)

lemma handle_frame_failure_devices:
  "devices (snd (handle_frame_failure mt dest aps_frame tag status msg s)) = devices s"
  by (simp add: handle_frame_failure_def set_exception_def log_line_def
      split: option.splits future.splits)

lemma handle_frame_registry:
  assumes "registry_ok s"
  shows "registry_ok (snd (handle_frame c mt aps_frame lqi rssi sender bi ai msg s))"
proof -
  define s1 where "s1 = (case scan_nwk (devices s) (Some sender) of
                   Some (k, dev) \<Rightarrow>
                     s\<lparr>devices := AList.update k (radio_details dev lqi rssi) (devices s)\<rparr>
                 | None \<Rightarrow> log_line DEBUG ''No such device %s'' s)"
  define deserialize where "deserialize = (if destinationEndpoint aps_frame = 0
                          then zdo_deserialize c else zcl_deserialize c)"
  have ok1: "registry_ok s1"
  proof (cases "scan_nwk (devices s) (Some sender)")
    case None
    then show ?thesis using assms by (simp add: s1_def log_line_def registry_ok_def)
  next
    case (Some kd)
    obtain k dev where kd: "kd = (k, dev)" by (cases kd)
    have "(k, dev) \<in> set (devices s)"
      using scan_nwk_mem [of "devices s" "Some sender" k dev] Some kd by simp
    then have "dev_ieee dev = k"
      using assms by (auto simp: registry_ok_def)
    then have "dev_ieee (radio_details dev lqi rssi) = k"
      by (simp add: radio_details_def)
    with assms have "registry_ok (s\<lparr>devices := AList.update k (radio_details dev lqi rssi) (devices s)\<rparr>)"
      by (rule registry_ok_update)
    then show ?thesis using Some kd by (simp add: s1_def)
  qed
  have unf: "handle_frame c mt aps_frame lqi rssi sender bi ai msg s
     = (case deserialize aps_frame msg of
            Inl err \<Rightarrow> (Inl err, s1)
          | Inr (tsn, command_id, is_reply, args) \<Rightarrow>
              if is_reply
              then handle_reply sender aps_frame tsn command_id args s1
              else handle_request c sender aps_frame tsn command_id args s1)"
    by (simp only: handle_frame_def s1_def deserialize_def Let_def)
  have "devices (snd (handle_frame c mt aps_frame lqi rssi sender bi ai msg s)) = devices s1"
    by (simp add: unf handle_reply_devices handle_request_devices split: sum.splits prod.splits)
  then show ?thesis using ok1 by (rule registry_ok_devices)
qed

lemma callback_registry:
  assumes "registry_ok s"
  shows "registry_ok (snd (ezsp_callback_handler c cb s))"
proof (cases cb)
  case (incomingMessageHandler mt aps_frame lqi rssi sender bi ai msg)
  then show ?thesis using handle_frame_registry [OF assms] by simp
next
  case (messageSentHandler mt dest aps_frame tag status msg)
  have "devices (snd (ezsp_callback_handler c cb s)) = devices s"
    using messageSentHandler by (simp add: handle_frame_failure_devices return_ok_def)
  then show ?thesis using assms by (rule registry_ok_devices)
next
  case (trustCenterJoinHandler nwk ieee du jd pn)
  then show ?thesis
    using handle_join_registry [OF assms] handle_leave_registry [OF assms] by simp
next
  case (other_frame frame_name)
  then show ?thesis using assms by (simp add: return_ok_def)
qed

lemma registry_ok_perform:
  assumes "registry_ok s"
  shows "registry_ok (perform c act s)"
proof (cases act)
  case (Callback cb)
  then show ?thesis using callback_registry [OF assms] by simp
next
  case (Request nwk aps_frame data)
  have "devices (perform c act s) = devices s"
    using Request by (simp add: request_start_def issue_def Let_def)
  then show ?thesis using assms by (rule registry_ok_devices)
next
  case (SendAnswered seq status)
  have "devices (perform c act s) = devices s"
    using SendAnswered by (simp add: request_sent_def split: option.splits)
  then show ?thesis using assms by (rule registry_ok_devices)
next
  case GetSequence
  have "devices (perform c act s) = devices s"
    using GetSequence by (simp add: get_sequence_def)
  then show ?thesis using assms by (rule registry_ok_devices)
qed

lemma startup_tables:
  "same_table s (snd (startup e s)) \<and> devices (snd (startup e s)) = devices s"
  by (simp add: startup_explicit same_table_def)

lemma startup_invariants:
  "pending_ok s \<Longrightarrow> pending_ok (snd (startup e s))"
  "registry_ok s \<Longrightarrow> registry_ok (snd (startup e s))"
  using startup_tables [of s e] pending_ok_same registry_ok_devices by blast+

lemma allocated_new_app: "allocated new_app"
  by (simp add: allocated_def new_app_def)

lemma allocated_fold: "allocated s \<Longrightarrow> allocated (fold (perform c) acts s)"
  by (induction acts arbitrary: s) (simp_all add: allocated_perform)

lemma allocated_cancel: "allocated s \<Longrightarrow> allocated (cancel_future fut s)"
  by (simp add: allocated_def cancel_future_def split: future.splits)

lemma allocated_request:
  assumes "allocated (s :: 'a app)"
  shows "allocated (snd (request c nwk aps_frame data before answer after cancelled s))"
proof -
  let ?s1 = "snd (request_start nwk aps_frame data s)"
  let ?s2 = "fold (perform c) before ?s1"
  have a1: "allocated ?s1"
    using allocated_perform [OF assms, of c "Request nwk aps_frame data"] by simp
  then have a2: "allocated ?s2"
    by (rule allocated_fold)
  have sent: "allocated (snd (request_sent seq status s0))" if "allocated s0"
    for seq status and s0 :: "'a app"
    using allocated_perform [OF that, of c "SendAnswered seq status"] by simp
  show ?thesis
  proof (cases "request_start nwk aps_frame data s")
    case (Pair r s1)
    then have s1: "s1 = ?s1" by simp
    show ?thesis
    proof (cases r)
      case (Inl e)
      then show ?thesis using Pair a1 by (simp add: request_def)
    next
      case (Inr fut)
      show ?thesis
      proof (cases answer)
        case (Inl e)
        then show ?thesis using Pair Inr a2 by (simp add: request_def)
      next
        case ans: (Inr status)
        obtain r3 s3 where q: "request_sent (sequence aps_frame) status ?s2 = (r3, s3)"
          by (cases "request_sent (sequence aps_frame) status ?s2")
        have a3: "allocated s3"
          using sent [OF a2, of "sequence aps_frame" status] q by simp
        then have a4: "allocated (fold (perform c) after s3)"
          by (rule allocated_fold)
        then have a5: "allocated (cancel_future fut (fold (perform c) after s3))"
          by (rule allocated_cancel)
        show ?thesis
          using Pair Inr ans q a3 a4 a5
          by (cases r3) (simp_all add: request_def Let_def)
      qed
    qed
  qed
qed

lemma allocated_startup: "allocated s \<Longrightarrow> allocated (snd (startup e s))"
  using startup_tables [of s e] by (simp add: allocated_def same_table_def)

end
